theory Spec2Isabelle
  imports Complex_Main
begin

section \<open>Black-Scholes-Merton notebook: the numeric core\<close>

text \<open>
  The notebook \<^verbatim>\<open>Finance/python-black-scholes-merton.ipynb\<close> (Python 2.7, NumPy, SciPy)
  holds three pieces of arithmetic: the function \<^verbatim>\<open>bsm\<close> (terminal price under geometric
  Brownian motion), the cell that averages and discounts the pay-off
  (\<^verbatim>\<open>optionValuesAtExpiry\<close>, \<^verbatim>\<open>averageForwardOptionValue\<close>, \<^verbatim>\<open>presentOptionValue\<close>) and
  the function \<^verbatim>\<open>call\<close> (the closed formula).

  Numbers. A Python float is read as the real number it stands for: arithmetic is exact,
  there is no rounding, no overflow and no underflow. What Python does where real
  arithmetic has no answer is written out as a branch of its own: an exception that the
  interpreter raises (\<open>Raises\<close>), or a NumPy result that is \<^verbatim>\<open>nan\<close> or infinite
  (\<open>NonFinite\<close>: NumPy warns and goes on). This reading decides which formula the code
  computes. The sign of a returned price depends on underflow, and for that \<^verbatim>\<open>bsm\<close> has
  a second model, in the range of doubles (\<open>bsm_double\<close>).
\<close>

subsection \<open>Outcomes\<close>

text \<open>
  \<open>ZeroDivisionError\<close>, \<open>ValueError\<close>, \<open>OverflowError\<close>, \<open>NameError\<close>, \<open>TypeError\<close> and
  \<open>AttributeError\<close> are built-in exceptions of the interpreter. \<open>InvalidParameterError\<close>
  and \<open>EmptySampleError\<close> are the two error names of the specification; no line of the
  notebook raises either.
\<close>

datatype py_error = ZeroDivisionError | ValueError | OverflowError | NameError | TypeError
  | AttributeError | InvalidParameterError | EmptySampleError

datatype 'a outcome = Returns 'a | Raises py_error | NonFinite

text \<open>
  A Python number is an \<^verbatim>\<open>int\<close> or a \<^verbatim>\<open>float\<close>. The difference shows in one place of the
  notebook only, the quotient \<^verbatim>\<open>sigma**2/2\<close> of \<^verbatim>\<open>call\<close>: in Python 2 the operator
  \<^verbatim>\<open>/\<close> between two ints is floor division. Everywhere else an int meets a float (or
  \<^verbatim>\<open>float(s)\<close>) before it is divided, so the other arguments are taken by their value.
\<close>

datatype pynum = PyInt int | PyFloat real

fun as_real :: "pynum \<Rightarrow> real" where
  "as_real (PyInt i) = real_of_int i"
| "as_real (PyFloat x) = x"

text \<open>\<^verbatim>\<open>sigma**2/2\<close>\<close>

fun square_halved :: "pynum \<Rightarrow> real" where
  "square_halved (PyInt i) = real_of_int (i ^ 2 div 2)"
| "square_halved (PyFloat x) = x ^ 2 / 2"

subsection \<open>The price simulator \<^verbatim>\<open>bsm\<close>\<close>

text \<open>
  \<^verbatim>\<open>
  def bsm(s_0, r, sigma, t, z):
      return s_0*np.exp((r-1.0/2*sigma**2)*t+sigma*z*t**(1.0/2))
  \<close>
  \<^verbatim>\<open>t**(1.0/2)\<close> on a negative Python number raises \<^verbatim>\<open>ValueError\<close> (negative number
  cannot be raised to a fractional power); \<open>0 powr (1/2) = 0\<close> as in Python. Nothing else
  in the body can raise, and nothing in it looks at the sign of any argument.
\<close>

definition bsm :: "real \<Rightarrow> real \<Rightarrow> real \<Rightarrow> real \<Rightarrow> real \<Rightarrow> real outcome" where
  "bsm s_0 r sigma t z =
     (if t < 0 then Raises ValueError
      else Returns (s_0 * exp ((r - 1 / 2 * sigma ^ 2) * t + sigma * z * t powr (1 / 2))))"

text \<open>
  The same body on a NumPy array of draws: every operator between a scalar and an array
  acts on each element, in place and in order.
\<close>

definition scalar_times_array :: "real \<Rightarrow> real list \<Rightarrow> real list" where
  "scalar_times_array a xs = map (\<lambda>x. a * x) xs"

definition array_times_scalar :: "real list \<Rightarrow> real \<Rightarrow> real list" where
  "array_times_scalar xs a = map (\<lambda>x. x * a) xs"

definition scalar_plus_array :: "real \<Rightarrow> real list \<Rightarrow> real list" where
  "scalar_plus_array a xs = map (\<lambda>x. a + x) xs"

definition array_minus_scalar :: "real list \<Rightarrow> real \<Rightarrow> real list" where
  "array_minus_scalar xs a = map (\<lambda>x. x - a) xs"

definition np_exp :: "real list \<Rightarrow> real list" where
  "np_exp xs = map exp xs"

definition np_maximum :: "real list \<Rightarrow> real \<Rightarrow> real list" where
  "np_maximum xs a = map (\<lambda>x. max x a) xs"

definition bsm_array :: "real \<Rightarrow> real \<Rightarrow> real \<Rightarrow> real \<Rightarrow> real list \<Rightarrow> real list outcome" where
  "bsm_array s_0 r sigma t z =
     (if t < 0 then Raises ValueError
      else Returns (scalar_times_array s_0
             (np_exp (scalar_plus_array ((r - 1 / 2 * sigma ^ 2) * t)
                (array_times_scalar (scalar_times_array sigma z) (t powr (1 / 2)))))))"

subsection \<open>The text of \<^verbatim>\<open>bsm\<close> and the names it reads\<close>

text \<open>
  Whether a call of \<^verbatim>\<open>bsm\<close> can depend on anything but its arguments is a question
  about the names in its body, so here the body is kept as the expression it is. A name
  is bound to a number, to an array, or to some other object (a module, a function, the
  state of a random generator).
\<close>

datatype pyval = Number real | NdArray "real list" | Object string

datatype operator = Plus | Minus | Times | Divide | Power

datatype expr =
    Name string
  | Literal real
  | BinOp expr operator expr
  | Attribute expr string
  | Call expr expr

text \<open>
  \<^verbatim>\<open>s_0*np.exp((r-1.0/2*sigma**2)*t+sigma*z*t**(1.0/2))\<close>, with the precedence of
  Python: \<^verbatim>\<open>**\<close> binds tightest, then \<^verbatim>\<open>*\<close> and \<^verbatim>\<open>/\<close> from the left, then \<^verbatim>\<open>+\<close> and
  \<^verbatim>\<open>-\<close>.
\<close>

definition bsm_body :: expr where
  "bsm_body =
     BinOp (Name ''s_0'') Times
       (Call (Attribute (Name ''np'') ''exp'')
          (BinOp
             (BinOp
                (BinOp (Name ''r'') Minus
                   (BinOp (BinOp (Literal 1) Divide (Literal 2)) Times
                      (BinOp (Name ''sigma'') Power (Literal 2))))
                Times (Name ''t''))
             Plus
             (BinOp (BinOp (Name ''sigma'') Times (Name ''z'')) Times
                (BinOp (Name ''t'') Power (BinOp (Literal 1) Divide (Literal 2))))))"

text \<open>
  What the operators, an attribute of an object and the call of a function compute is a
  parameter of the evaluation: each is a function of the values it is given, as
  arithmetic and \<^verbatim>\<open>np.exp\<close> are, in exact arithmetic or in doubles.
\<close>

record semantics =
  binary_operation :: "operator \<Rightarrow> pyval \<Rightarrow> pyval \<Rightarrow> pyval outcome"
  attribute_of :: "pyval \<Rightarrow> string \<Rightarrow> pyval outcome"
  call_of :: "pyval \<Rightarrow> pyval \<Rightarrow> pyval outcome"

text \<open>
  A name in a function body is looked up among the parameters of the call first, then
  among the globals of the session (\<^verbatim>\<open>NameError\<close> when it is in neither). Python
  evaluates the left operand before the right one and the function before its argument;
  the first exception ends the evaluation.
\<close>

definition lookup :: "(string \<rightharpoonup> pyval) \<Rightarrow> (string \<rightharpoonup> pyval) \<Rightarrow> string \<Rightarrow> pyval outcome" where
  "lookup parameters globals x =
     (case parameters x of
        Some v \<Rightarrow> Returns v
      | None \<Rightarrow> (case globals x of Some v \<Rightarrow> Returns v | None \<Rightarrow> Raises NameError))"

fun eval :: "semantics \<Rightarrow> (string \<rightharpoonup> pyval) \<Rightarrow> (string \<rightharpoonup> pyval) \<Rightarrow> expr \<Rightarrow> pyval outcome" where
  "eval sem parameters globals (Name x) = lookup parameters globals x"
| "eval sem parameters globals (Literal c) = Returns (Number c)"
| "eval sem parameters globals (BinOp a operation b) =
     (case eval sem parameters globals a of
        Returns u \<Rightarrow>
          (case eval sem parameters globals b of
             Returns v \<Rightarrow> binary_operation sem operation u v
           | Raises e \<Rightarrow> Raises e
           | NonFinite \<Rightarrow> NonFinite)
      | Raises e \<Rightarrow> Raises e
      | NonFinite \<Rightarrow> NonFinite)"
| "eval sem parameters globals (Attribute a name) =
     (case eval sem parameters globals a of
        Returns u \<Rightarrow> attribute_of sem u name
      | Raises e \<Rightarrow> Raises e
      | NonFinite \<Rightarrow> NonFinite)"
| "eval sem parameters globals (Call f a) =
     (case eval sem parameters globals f of
        Returns u \<Rightarrow>
          (case eval sem parameters globals a of
             Returns v \<Rightarrow> call_of sem u v
           | Raises e \<Rightarrow> Raises e
           | NonFinite \<Rightarrow> NonFinite)
      | Raises e \<Rightarrow> Raises e
      | NonFinite \<Rightarrow> NonFinite)"

text \<open>
  A call \<^verbatim>\<open>bsm(s_0, r, sigma, t, z)\<close> in a session with the given globals: the five
  arguments are bound to the five parameters and the body is evaluated.
\<close>

definition bsm_call ::
  "semantics \<Rightarrow> (string \<rightharpoonup> pyval) \<Rightarrow> pyval \<Rightarrow> pyval \<Rightarrow> pyval \<Rightarrow> pyval \<Rightarrow> pyval \<Rightarrow> pyval outcome" where
  "bsm_call sem globals s_0 r sigma t z =
     eval sem [''s_0'' \<mapsto> s_0, ''r'' \<mapsto> r, ''sigma'' \<mapsto> sigma, ''t'' \<mapsto> t, ''z'' \<mapsto> z] globals bsm_body"


text \<open>
  The operators in exact arithmetic. Between Python numbers \<^verbatim>\<open>/\<close> by zero raises
  \<^verbatim>\<open>ZeroDivisionError\<close>, and \<^verbatim>\<open>**\<close> raises \<^verbatim>\<open>ValueError\<close> for a negative base with a
  fractional exponent and \<^verbatim>\<open>ZeroDivisionError\<close> for zero to a negative power. With an
  array the operator acts on each element and raises nothing: an element that has no
  value is \<^verbatim>\<open>nan\<close> or infinite. Two arrays need the same length, or one of them the
  length one. Of the attributes and functions of NumPy only \<^verbatim>\<open>np.exp\<close> is here.
\<close>

fun number_operation :: "operator \<Rightarrow> real \<Rightarrow> real \<Rightarrow> real outcome" where
  "number_operation Plus a b = Returns (a + b)"
| "number_operation Minus a b = Returns (a - b)"
| "number_operation Times a b = Returns (a * b)"
| "number_operation Divide a b = (if b = 0 then Raises ZeroDivisionError else Returns (a / b))"
| "number_operation Power a b =
     (if a < 0 \<and> real_of_int \<lfloor>b\<rfloor> \<noteq> b then Raises ValueError
      else if a = 0 \<and> b < 0 then Raises ZeroDivisionError
      else if real_of_int \<lfloor>b\<rfloor> = b then Returns (a powi \<lfloor>b\<rfloor>)
      else Returns (a powr b))"

fun elements :: "real outcome list \<Rightarrow> pyval outcome" where
  "elements [] = Returns (NdArray [])"
| "elements (Returns x # rs) =
     (case elements rs of Returns (NdArray xs) \<Rightarrow> Returns (NdArray (x # xs)) | _ \<Rightarrow> NonFinite)"
| "elements (r # rs) = NonFinite"

fun exact_operation :: "operator \<Rightarrow> pyval \<Rightarrow> pyval \<Rightarrow> pyval outcome" where
  "exact_operation operation (Number a) (Number b) =
     (case number_operation operation a b of
        Returns c \<Rightarrow> Returns (Number c)
      | Raises e \<Rightarrow> Raises e
      | NonFinite \<Rightarrow> NonFinite)"
| "exact_operation operation (Number a) (NdArray bs) =
     elements (map (number_operation operation a) bs)"
| "exact_operation operation (NdArray as) (Number b) =
     elements (map (\<lambda>a. number_operation operation a b) as)"
| "exact_operation operation (NdArray as) (NdArray bs) =
     (if length as = length bs then elements (map2 (number_operation operation) as bs)
      else if length as = 1 then elements (map (number_operation operation (hd as)) bs)
      else if length bs = 1 then elements (map (\<lambda>a. number_operation operation a (hd bs)) as)
      else Raises ValueError)"
| "exact_operation operation (Object x) v = Raises TypeError"
| "exact_operation operation u (Object y) = Raises TypeError"

fun exact_attribute :: "pyval \<Rightarrow> string \<Rightarrow> pyval outcome" where
  "exact_attribute (Object x) name =
     (if x = ''numpy'' \<and> name = ''exp'' then Returns (Object ''numpy.exp'')
      else Raises AttributeError)"
| "exact_attribute u name = Raises AttributeError"

fun exact_call :: "pyval \<Rightarrow> pyval \<Rightarrow> pyval outcome" where
  "exact_call (Object f) (Number x) =
     (if f = ''numpy.exp'' then Returns (Number (exp x)) else Raises TypeError)"
| "exact_call (Object f) (NdArray xs) =
     (if f = ''numpy.exp'' then Returns (NdArray (map exp xs)) else Raises TypeError)"
| "exact_call u v = Raises TypeError"

definition exact_semantics :: semantics where
  "exact_semantics =
     \<lparr>binary_operation = exact_operation, attribute_of = exact_attribute, call_of = exact_call\<rparr>"

subsection \<open>\<^verbatim>\<open>bsm\<close> in the range of doubles\<close>

text \<open>
  The exact model above has no smallest and no largest number. Here each operation of
  \<^verbatim>\<open>bsm\<close> gives its result in the range of an IEEE double: a result of magnitude at most
  \<open>2 ^ -1075\<close> (half the smallest positive double) is \<^verbatim>\<open>0.0\<close>, a result of magnitude
  \<open>2 ^ 1024 - 2 ^ 970\<close> or more is infinite, and \<^verbatim>\<open>nan\<close> comes from \<^verbatim>\<open>inf - inf\<close> and
  \<^verbatim>\<open>0 * inf\<close>. Inside the range a result stands for the double next to it: rounding is
  not modelled. The arguments are Python floats: \<^verbatim>\<open>*\<close>, \<^verbatim>\<open>+\<close> and \<^verbatim>\<open>-\<close> overflow to
  \<^verbatim>\<open>inf\<close> silently and so does \<^verbatim>\<open>np.exp\<close>, while \<^verbatim>\<open>sigma**2\<close> raises \<^verbatim>\<open>OverflowError\<close>
  when it overflows, before \<^verbatim>\<open>t**(1.0/2)\<close> is evaluated.
\<close>

datatype double_value = Finite real | PlusInfinity | MinusInfinity | NotANumber

definition overflow_threshold :: real where
  "overflow_threshold = 2 ^ 1024 - 2 ^ 970"

definition underflow_threshold :: real where
  "underflow_threshold = 1 / 2 ^ 1075"

definition to_double :: "real \<Rightarrow> double_value" where
  "to_double x =
     (if overflow_threshold \<le> x then PlusInfinity
      else if x \<le> - overflow_threshold then MinusInfinity
      else if \<bar>x\<bar> \<le> underflow_threshold then Finite 0
      else Finite x)"

fun double_negate :: "double_value \<Rightarrow> double_value" where
  "double_negate (Finite a) = Finite (- a)"
| "double_negate PlusInfinity = MinusInfinity"
| "double_negate MinusInfinity = PlusInfinity"
| "double_negate NotANumber = NotANumber"

fun infinity_times :: "bool \<Rightarrow> real \<Rightarrow> double_value" where
  "infinity_times positive a =
     (if a = 0 then NotANumber
      else if (0 < a) = positive then PlusInfinity
      else MinusInfinity)"

fun double_times :: "double_value \<Rightarrow> double_value \<Rightarrow> double_value" where
  "double_times (Finite a) (Finite b) = to_double (a * b)"
| "double_times NotANumber v = NotANumber"
| "double_times u NotANumber = NotANumber"
| "double_times (Finite a) PlusInfinity = infinity_times True a"
| "double_times (Finite a) MinusInfinity = infinity_times False a"
| "double_times PlusInfinity (Finite b) = infinity_times True b"
| "double_times MinusInfinity (Finite b) = infinity_times False b"
| "double_times PlusInfinity PlusInfinity = PlusInfinity"
| "double_times MinusInfinity MinusInfinity = PlusInfinity"
| "double_times PlusInfinity MinusInfinity = MinusInfinity"
| "double_times MinusInfinity PlusInfinity = MinusInfinity"

fun double_plus :: "double_value \<Rightarrow> double_value \<Rightarrow> double_value" where
  "double_plus (Finite a) (Finite b) = to_double (a + b)"
| "double_plus NotANumber v = NotANumber"
| "double_plus u NotANumber = NotANumber"
| "double_plus PlusInfinity MinusInfinity = NotANumber"
| "double_plus MinusInfinity PlusInfinity = NotANumber"
| "double_plus PlusInfinity v = PlusInfinity"
| "double_plus u PlusInfinity = PlusInfinity"
| "double_plus MinusInfinity v = MinusInfinity"
| "double_plus u MinusInfinity = MinusInfinity"

definition double_minus :: "double_value \<Rightarrow> double_value \<Rightarrow> double_value" where
  "double_minus u v = double_plus u (double_negate v)"

fun double_exp :: "double_value \<Rightarrow> double_value" where
  "double_exp (Finite x) = to_double (exp x)"
| "double_exp PlusInfinity = PlusInfinity"
| "double_exp MinusInfinity = Finite 0"
| "double_exp NotANumber = NotANumber"

text \<open>The value of the body, operation by operation, once no exception is raised.\<close>

definition price_double :: "real \<Rightarrow> real \<Rightarrow> real \<Rightarrow> real \<Rightarrow> real \<Rightarrow> double_value" where
  "price_double s_0 r sigma t z =
     double_times (Finite s_0)
       (double_exp
          (double_plus
             (double_times
                (double_minus (Finite r) (double_times (Finite (1 / 2)) (to_double (sigma ^ 2))))
                (Finite t))
             (double_times (double_times (Finite sigma) (Finite z))
                (to_double (t powr (1 / 2))))))"

definition bsm_double :: "real \<Rightarrow> real \<Rightarrow> real \<Rightarrow> real \<Rightarrow> real \<Rightarrow> double_value outcome" where
  "bsm_double s_0 r sigma t z =
     (if overflow_threshold \<le> sigma ^ 2 then Raises OverflowError
      else if t < 0 then Raises ValueError
      else Returns (price_double s_0 r sigma t z))"

definition bsm_array_double ::
  "real \<Rightarrow> real \<Rightarrow> real \<Rightarrow> real \<Rightarrow> real list \<Rightarrow> double_value list outcome" where
  "bsm_array_double s_0 r sigma t z =
     (if overflow_threshold \<le> sigma ^ 2 then Raises OverflowError
      else if t < 0 then Raises ValueError
      else Returns (map (price_double s_0 r sigma t) z))"

text \<open>A price that is not below zero: a number at least zero, \<^verbatim>\<open>inf\<close>, or \<^verbatim>\<open>nan\<close>.\<close>

fun not_below_zero :: "double_value \<Rightarrow> bool" where
  "not_below_zero (Finite p) = (0 \<le> p)"
| "not_below_zero PlusInfinity = True"
| "not_below_zero NotANumber = True"
| "not_below_zero MinusInfinity = False"

subsection \<open>The Monte Carlo estimate\<close>

text \<open>
  \<^verbatim>\<open>
  stockPriceAtExpiry = bsm(100, r, 0.4, t, np.random.standard_normal(n))
  strikePrice = 105
  optionValuesAtExpiry = np.maximum(stockPriceAtExpiry - strikePrice,0)
  averageForwardOptionValue = sum(optionValuesAtExpiry)/n
  presentOptionValue = averageForwardOptionValue * math.exp(-r*t)
  \<close>
  \<^verbatim>\<open>n\<close> is the number of draws, hence the length of \<^verbatim>\<open>stockPriceAtExpiry\<close>. The built-in
  \<^verbatim>\<open>sum\<close> starts from the int \<^verbatim>\<open>0\<close>: on an empty array it returns that int, and
  \<^verbatim>\<open>0/0\<close> between ints raises \<^verbatim>\<open>ZeroDivisionError\<close>. A non-empty array sums to a NumPy
  float, and NumPy divides a float by zero to \<^verbatim>\<open>inf\<close> or \<^verbatim>\<open>nan\<close> without raising.
  (\<^verbatim>\<open>math.exp\<close> raises \<^verbatim>\<open>OverflowError\<close> beyond the range of a double; with exact reals
  there is no such range.)
\<close>

definition optionValuesAtExpiry :: "real list \<Rightarrow> real \<Rightarrow> real list" where
  "optionValuesAtExpiry stockPriceAtExpiry strikePrice =
     np_maximum (array_minus_scalar stockPriceAtExpiry strikePrice) 0"

definition averageForwardOptionValue :: "real list \<Rightarrow> nat \<Rightarrow> real outcome" where
  "averageForwardOptionValue values n =
     (if n = 0 then (if values = [] then Raises ZeroDivisionError else NonFinite)
      else Returns (sum_list values / real n))"

definition presentOptionValue :: "real list \<Rightarrow> real \<Rightarrow> real \<Rightarrow> real \<Rightarrow> real outcome" where
  "presentOptionValue stockPriceAtExpiry strikePrice r t =
     (case averageForwardOptionValue (optionValuesAtExpiry stockPriceAtExpiry strikePrice)
             (length stockPriceAtExpiry) of
        Returns a \<Rightarrow> Returns (a * exp (- r * t))
      | Raises e \<Rightarrow> Raises e
      | NonFinite \<Rightarrow> NonFinite)"

subsection \<open>The closed formula \<^verbatim>\<open>call\<close>\<close>

text \<open>
  \<^verbatim>\<open>
  def call(s, r, sigma, t, k):
      d1 = 1/(sigma*t**(0.5))*(np.log(float(s)/k) + (r+sigma**2/2)*t)
      d2 = d1-sigma*t**(0.5)
      return norm.cdf(d1)*s-norm.cdf(d2)*k*np.exp(-r*t)
  \<close>
  \<^verbatim>\<open>norm.cdf\<close> is SciPy's; it is the parameter \<open>cdf\<close>. Python evaluates the left factor of
  \<^verbatim>\<open>d1\<close> first: \<^verbatim>\<open>t**(0.5)\<close> (\<^verbatim>\<open>ValueError\<close> for a negative \<^verbatim>\<open>t\<close>), then the division
  (\<^verbatim>\<open>ZeroDivisionError\<close> when the product is zero), then \<^verbatim>\<open>float(s)/k\<close>
  (\<^verbatim>\<open>ZeroDivisionError\<close> when \<^verbatim>\<open>k\<close> is zero). \<^verbatim>\<open>np.log\<close> raises nothing: of a negative
  number it is \<^verbatim>\<open>nan\<close>, and so is the price; of zero it is \<^verbatim>\<open>-inf\<close>, which makes
  \<^verbatim>\<open>d1\<close> and \<^verbatim>\<open>d2\<close> both \<^verbatim>\<open>-inf\<close> when \<^verbatim>\<open>sigma*t**(0.5)\<close> is positive and both
  \<^verbatim>\<open>inf\<close> when it is negative. \<^verbatim>\<open>norm.cdf\<close> is \<^verbatim>\<open>0.0\<close> at \<^verbatim>\<open>-inf\<close> and \<^verbatim>\<open>1.0\<close> at
  \<^verbatim>\<open>inf\<close>, so with a spot of zero the price returned is the finite number of the last
  line, with these two values for \<^verbatim>\<open>norm.cdf(d1)\<close> and \<^verbatim>\<open>norm.cdf(d2)\<close>.
\<close>

definition call :: "(real \<Rightarrow> real) \<Rightarrow> real \<Rightarrow> real \<Rightarrow> pynum \<Rightarrow> real \<Rightarrow> real \<Rightarrow> real outcome" where
  "call cdf s r sigma t k =
     (if t < 0 then Raises ValueError
      else if as_real sigma * t powr 0.5 = 0 then Raises ZeroDivisionError
      else if k = 0 then Raises ZeroDivisionError
      else if s / k < 0 then NonFinite
      else if s / k = 0 then
        (if 0 < as_real sigma * t powr 0.5 then Returns (0 * s - 0 * k * exp (- r * t))
         else Returns (1 * s - 1 * k * exp (- r * t)))
      else
        let d1 = 1 / (as_real sigma * t powr 0.5) * (ln (s / k) + (r + square_halved sigma) * t);
            d2 = d1 - as_real sigma * t powr 0.5
        in Returns (cdf d1 * s - cdf d2 * k * exp (- r * t)))"

subsection \<open>The standard normal distribution function\<close>

text \<open>
  Modelled from the spec: \<^verbatim>\<open>scipy.stats.norm.cdf\<close> is a library function outside the
  notebook; the specification says that it is the standard normal cumulative distribution
  function \<open>\<Phi>\<close>. \<open>gauss_series x\<close> is the Maclaurin series of the integral of
  \<open>exp (- u\<^sup>2 / 2)\<close> from \<open>0\<close> to \<open>x\<close>, so that \<open>std_normal_cdf\<close> is the function whose
  value at \<open>0\<close> is \<open>1 / 2\<close> and whose derivative is the density \<open>std_normal_pdf\<close>.
\<close>

definition gauss_term :: "real \<Rightarrow> nat \<Rightarrow> real" where
  "gauss_term x n = (- 1) ^ n * x ^ (2 * n + 1) / (2 ^ n * fact n * real (2 * n + 1))"

definition gauss_series :: "real \<Rightarrow> real" where
  "gauss_series x = (\<Sum>n. gauss_term x n)"

definition std_normal_pdf :: "real \<Rightarrow> real" where
  "std_normal_pdf x = exp (- (x ^ 2) / 2) / sqrt (2 * pi)"

definition std_normal_cdf :: "real \<Rightarrow> real" where
  "std_normal_cdf x = 1 / 2 + gauss_series x / sqrt (2 * pi)"

subsection \<open>The formulas of the specification\<close>

text \<open>The quantities \<open>d1\<close> and \<open>d2\<close> as the specification writes them.\<close>

definition spec_d1 :: "real \<Rightarrow> real \<Rightarrow> real \<Rightarrow> real \<Rightarrow> real \<Rightarrow> real" where
  "spec_d1 spot riskFreeRate volatility timeToExpiry strike =
     (ln (spot / strike) + (riskFreeRate + volatility ^ 2 / 2) * timeToExpiry)
       / (volatility * sqrt timeToExpiry)"

definition spec_d2 :: "real \<Rightarrow> real \<Rightarrow> real \<Rightarrow> real \<Rightarrow> real \<Rightarrow> real" where
  "spec_d2 spot riskFreeRate volatility timeToExpiry strike =
     spec_d1 spot riskFreeRate volatility timeToExpiry strike - volatility * sqrt timeToExpiry"

text \<open>The simulated price as the specification writes it.\<close>

definition spec_price :: "real \<Rightarrow> real \<Rightarrow> real \<Rightarrow> real \<Rightarrow> real \<Rightarrow> real" where
  "spec_price spot riskFreeRate volatility timeToExpiry z =
     spot * exp ((riskFreeRate - 0.5 * volatility ^ 2) * timeToExpiry
                 + volatility * z * sqrt timeToExpiry)"

text \<open>The call price as the specification writes it, for a distribution function \<open>Phi\<close>.\<close>

definition spec_call_price :: "(real \<Rightarrow> real) \<Rightarrow> real \<Rightarrow> real \<Rightarrow> real \<Rightarrow> real \<Rightarrow> real \<Rightarrow> real" where
  "spec_call_price Phi spot riskFreeRate volatility timeToExpiry strike =
     Phi (spec_d1 spot riskFreeRate volatility timeToExpiry strike) * spot
     - Phi (spec_d2 spot riskFreeRate volatility timeToExpiry strike) * strike
       * exp (- riskFreeRate * timeToExpiry)"

subsection \<open>Auxiliary functions of the analysis\<close>

text \<open>
  None of these is code of the notebook. \<open>gauss_coeff\<close> are the coefficients of
  \<open>gauss_series x = x * (\<Sum>n. gauss_coeff n * (x\<^sup>2) ^ n)\<close>. \<open>cos_power_integral n\<close> is the
  antiderivative of \<open>cos x ^ n\<close> that vanishes at \<open>0\<close>, by the reduction formula, and
  \<open>wallis n\<close> its value at \<open>pi / 2\<close>; they bound the Gaussian integral.
\<close>

definition gauss_coeff :: "nat \<Rightarrow> real" where
  "gauss_coeff n = (- 1) ^ n / (2 ^ n * fact n * real (2 * n + 1))"

fun cos_power_integral :: "nat \<Rightarrow> real \<Rightarrow> real" where
  "cos_power_integral 0 x = x"
| "cos_power_integral (Suc 0) x = sin x"
| "cos_power_integral (Suc (Suc n)) x =
     cos x ^ Suc n * sin x / real (n + 2) + real (n + 1) / real (n + 2) * cos_power_integral n x"

definition wallis :: "nat \<Rightarrow> real" where
  "wallis n = cos_power_integral n (pi / 2)"

section \<open>Properties\<close>

subsection \<open>Helper facts\<close>

lemma bsm_array_map:
  "0 \<le> t \<Longrightarrow> bsm_array s_0 r sigma t z = Returns (map (spec_price s_0 r sigma t) z)"
  by (simp add: bsm_array_def scalar_times_array_def np_exp_def scalar_plus_array_def
      array_times_scalar_def spec_price_def powr_half_sqrt)

lemma bsm_scalar:
  "0 \<le> t \<Longrightarrow> bsm s_0 r sigma t z = Returns (spec_price s_0 r sigma t z)"
  by (simp add: bsm_def spec_price_def powr_half_sqrt)

lemma sum_list_payoff_nonneg: "0 \<le> sum_list (optionValuesAtExpiry ps k)"
  by (induction ps)
     (simp_all add: optionValuesAtExpiry_def np_maximum_def array_minus_scalar_def)

subsection \<open>The distribution function: derivative\<close>

lemma neg_half_power: "(- y / 2) ^ n = (- 1) ^ n * y ^ n / (2::real) ^ n"
proof -
  have "- y / 2 = (- 1) * y / 2"
    by simp
  then have "(- y / 2) ^ n = ((- 1) * y / 2) ^ n"
    by simp
  also have "\<dots> = (- 1) ^ n * y ^ n / 2 ^ n"
    by (simp only: power_divide power_mult_distrib)
  finally show ?thesis .
qed

lemma gauss_coeff_summable: "summable (\<lambda>n. gauss_coeff n * y ^ n)"
proof (rule summable_comparison_test' [where N = 0])
  show "summable (\<lambda>n. norm ((y / 2) ^ n /\<^sub>R fact n))"
    by (rule summable_norm_exp)
next
  fix n :: nat
  have nonneg: "0 \<le> (\<bar>y\<bar> / 2) ^ n / fact n"
    by simp
  have "norm (gauss_coeff n * y ^ n) = (\<bar>y\<bar> / 2) ^ n / fact n / real (2 * n + 1)"
    by (simp add: gauss_coeff_def abs_mult power_abs power_divide)
  also have "\<dots> \<le> (\<bar>y\<bar> / 2) ^ n / fact n / 1"
    using nonneg by (intro divide_left_mono) simp_all
  also have "\<dots> = norm ((y / 2) ^ n /\<^sub>R fact n)"
    by (simp add: power_abs field_simps)
  finally show "norm (gauss_coeff n * y ^ n) \<le> norm ((y / 2) ^ n /\<^sub>R fact n)" .
qed

lemma gauss_coeff_deriv:
  "((\<lambda>y. \<Sum>n. gauss_coeff n * y ^ n) has_real_derivative (\<Sum>n. diffs gauss_coeff n * y ^ n)) (at y)"
  by (rule termdiffs_strong_converges_everywhere) (rule gauss_coeff_summable)

lemma gauss_series_factor: "gauss_series x = x * (\<Sum>n. gauss_coeff n * (x ^ 2) ^ n)"
proof -
  have "gauss_term x n = x * (gauss_coeff n * (x ^ 2) ^ n)" for n
    by (simp add: gauss_term_def gauss_coeff_def power_mult [symmetric])
  then show ?thesis
    using gauss_coeff_summable [of "x ^ 2"]
    by (simp add: gauss_series_def suminf_mult)
qed

lemma gauss_coeff_exp:
  "(\<Sum>n. gauss_coeff n * y ^ n) + 2 * y * (\<Sum>n. diffs gauss_coeff n * y ^ n) = exp (- y / 2)"
proof -
  have s0: "(\<lambda>n. gauss_coeff n * y ^ n) sums (\<Sum>n. gauss_coeff n * y ^ n)"
    using gauss_coeff_summable by (rule summable_sums)
  have sd: "summable (\<lambda>n. diffs gauss_coeff n * y ^ n)"
    using gauss_coeff_deriv termdiff_converges_all [OF gauss_coeff_summable] by blast
  have s1: "(\<lambda>n. real n * gauss_coeff n * y ^ (n - Suc 0)) sums (\<Sum>n. diffs gauss_coeff n * y ^ n)"
    using diffs_equiv [OF sd] by simp
  have "(\<lambda>n. 2 * y * (real n * gauss_coeff n * y ^ (n - Suc 0))) sums
          (2 * y * (\<Sum>n. diffs gauss_coeff n * y ^ n))"
    using s1 by (rule sums_mult)
  moreover have "2 * y * (real n * gauss_coeff n * y ^ (n - Suc 0)) = 2 * real n * gauss_coeff n * y ^ n" for n
    by (cases n) simp_all
  ultimately have s2: "(\<lambda>n. 2 * real n * gauss_coeff n * y ^ n) sums
          (2 * y * (\<Sum>n. diffs gauss_coeff n * y ^ n))"
    by simp
  have "(\<lambda>n. gauss_coeff n * y ^ n + 2 * real n * gauss_coeff n * y ^ n) sums
          ((\<Sum>n. gauss_coeff n * y ^ n) + 2 * y * (\<Sum>n. diffs gauss_coeff n * y ^ n))"
    using s0 s2 by (rule sums_add)
  moreover have "gauss_coeff n * y ^ n + 2 * real n * gauss_coeff n * y ^ n = (- y / 2) ^ n /\<^sub>R fact n" for n
  proof -
    have "gauss_coeff n * real (2 * n + 1) = (- 1) ^ n / (2 ^ n * fact n)"
      by (simp add: gauss_coeff_def)
    moreover have "gauss_coeff n * y ^ n + 2 * real n * gauss_coeff n * y ^ n
        = (gauss_coeff n * real (2 * n + 1)) * y ^ n"
      by (simp add: algebra_simps)
    moreover have "(- y / 2) ^ n /\<^sub>R fact n = (- 1) ^ n / (2 ^ n * fact n) * y ^ n"
      unfolding neg_half_power by (simp add: field_simps)
    ultimately show ?thesis
      by simp
  qed
  ultimately have "(\<lambda>n. (- y / 2) ^ n /\<^sub>R fact n) sums
          ((\<Sum>n. gauss_coeff n * y ^ n) + 2 * y * (\<Sum>n. diffs gauss_coeff n * y ^ n))"
    by simp
  then show ?thesis
    using exp_converges [of "- y / 2"] sums_unique2 by blast
qed

lemma gauss_series_deriv:
  "(gauss_series has_real_derivative exp (- (x ^ 2) / 2)) (at x)"
proof -
  have "((\<lambda>x. x * (\<Sum>n. gauss_coeff n * (x ^ 2) ^ n)) has_real_derivative
          (1 * (\<Sum>n. gauss_coeff n * (x ^ 2) ^ n)
           + x * ((\<Sum>n. diffs gauss_coeff n * (x ^ 2) ^ n) * (2 * x)))) (at x)"
    by (rule DERIV_mult' [OF DERIV_ident, THEN DERIV_cong] derivative_eq_intros
        DERIV_chain2 [OF gauss_coeff_deriv] | simp)+
  moreover have "1 * (\<Sum>n. gauss_coeff n * (x ^ 2) ^ n)
           + x * ((\<Sum>n. diffs gauss_coeff n * (x ^ 2) ^ n) * (2 * x)) = exp (- (x ^ 2) / 2)"
    using gauss_coeff_exp [of "x ^ 2"] by (simp add: power2_eq_square algebra_simps)
  moreover have "gauss_series = (\<lambda>x. x * (\<Sum>n. gauss_coeff n * (x ^ 2) ^ n))"
    by (rule ext) (rule gauss_series_factor)
  ultimately show ?thesis
    by simp
qed

subsection \<open>The distribution function: range\<close>

lemma cos_power_integral_deriv:
  "(cos_power_integral n has_real_derivative cos x ^ n) (at x)"
proof (induction n x rule: cos_power_integral.induct)
  case (1 x)
  have "((\<lambda>x. x) has_real_derivative 1) (at x)"
    by (rule DERIV_ident)
  moreover have "cos_power_integral 0 = (\<lambda>x. x)"
    by (rule ext) simp
  ultimately show ?case
    by simp
next
  case (2 x)
  have "cos_power_integral (Suc 0) = sin"
    by (rule ext) simp
  then show ?case
    by (simp add: DERIV_sin)
next
  case (3 n x)
  have rec: "(cos_power_integral n has_real_derivative cos x ^ n) (at x)"
    by (rule "3.IH")
  have "((\<lambda>x. cos x ^ Suc n) has_real_derivative
          real (Suc n) * (- sin x * cos x ^ (Suc n - Suc 0))) (at x)"
    by (rule DERIV_power [OF DERIV_cos])
  then have cosp: "((\<lambda>x. cos x ^ Suc n) has_real_derivative
          real (Suc n) * cos x ^ n * (- sin x)) (at x)"
    by (simp add: mult.assoc mult.left_commute [of "sin x"] mult.commute [of "sin x"])
  have prod: "((\<lambda>x. cos x ^ Suc n * sin x) has_real_derivative
          (real (Suc n) * cos x ^ n * (- sin x)) * sin x + cos x * cos x ^ Suc n) (at x)"
    by (rule DERIV_mult [OF cosp DERIV_sin])
  have "((\<lambda>x. cos x ^ Suc n * sin x / real (n + 2)
              + real (n + 1) / real (n + 2) * cos_power_integral n x) has_real_derivative
          ((real (Suc n) * cos x ^ n * (- sin x)) * sin x + cos x * cos x ^ Suc n) / real (n + 2)
          + real (n + 1) / real (n + 2) * cos x ^ n) (at x)"
    by (rule DERIV_add [OF DERIV_cdivide [OF prod] DERIV_cmult [OF rec]])
  moreover have "((real (Suc n) * cos x ^ n * (- sin x)) * sin x + cos x * cos x ^ Suc n) / real (n + 2)
          + real (n + 1) / real (n + 2) * cos x ^ n = cos x ^ Suc (Suc n)"
  proof -
    have s2: "sin x * sin x = 1 - cos x * cos x"
      using sin_cos_squared_add [of x] by (simp add: power2_eq_square)
    have "(real (Suc n) * cos x ^ n * (- sin x)) * sin x + cos x * cos x ^ Suc n
          = - (real (n + 1) * cos x ^ n * (sin x * sin x)) + cos x * cos x * cos x ^ n"
      by simp
    also have "\<dots> = real (n + 2) * (cos x * cos x * cos x ^ n) - real (n + 1) * cos x ^ n"
      unfolding s2 by (simp add: algebra_simps)
    finally have "((real (Suc n) * cos x ^ n * (- sin x)) * sin x + cos x * cos x ^ Suc n) / real (n + 2)
          = cos x * cos x * cos x ^ n - real (n + 1) * cos x ^ n / real (n + 2)"
      by (simp add: diff_divide_distrib)
    then show ?thesis
      by simp
  qed
  moreover have "cos_power_integral (Suc (Suc n)) =
      (\<lambda>x. cos x ^ Suc n * sin x / real (n + 2) + real (n + 1) / real (n + 2) * cos_power_integral n x)"
    by (rule ext) simp
  ultimately show ?case
    by simp
qed

lemma cos_power_integral_zero: "cos_power_integral n 0 = 0"
  by (induction n "0 :: real" rule: cos_power_integral.induct) simp_all

lemma wallis_0: "wallis 0 = pi / 2"
  by (simp add: wallis_def)

lemma wallis_1: "wallis (Suc 0) = 1"
  by (simp add: wallis_def)

lemma wallis_rec: "wallis (Suc (Suc n)) = real (n + 1) / real (n + 2) * wallis n"
  by (simp add: wallis_def)

lemma wallis_pos_pair: "0 < wallis n \<and> 0 < wallis (Suc n)"
  by (induction n) (simp_all add: wallis_0 wallis_1 wallis_rec)

lemma wallis_pos: "0 < wallis n"
  using wallis_pos_pair by blast

lemma wallis_cancel: "a \<noteq> 0 \<Longrightarrow> a / b * (pi / (2 * a)) = pi / (2 * b)" for a b :: real
  by simp

lemma wallis_product: "wallis n * wallis (Suc n) = pi / (2 * real (n + 1))"
proof (induction n)
  case 0
  show ?case
    by (simp add: wallis_0 wallis_1)
next
  case (Suc n)
  have "wallis (Suc n) * wallis (Suc (Suc n))
        = real (n + 1) / real (n + 2) * (wallis n * wallis (Suc n))"
    by (simp add: wallis_rec)
  also have "\<dots> = real (n + 1) / real (n + 2) * (pi / (2 * real (n + 1)))"
    by (simp only: Suc.IH)
  also have "\<dots> = pi / (2 * real (n + 2))"
    using wallis_cancel [of "real (n + 1)" "real (n + 2)"] by simp
  finally show ?case
    by simp
qed

lemma cos_power_integral_mono:
  assumes "0 \<le> x" and "x \<le> y" and "y \<le> pi / 2"
  shows "cos_power_integral n x \<le> cos_power_integral n y"
proof (rule DERIV_nonneg_imp_nondecreasing [OF assms(2)])
  fix u assume "x \<le> u" and "u \<le> y"
  then have "0 \<le> cos u"
    using assms(1,3) by (intro cos_ge_zero) simp_all
  then have "0 \<le> cos u ^ n"
    by simp
  then show "\<exists>d. (cos_power_integral n has_real_derivative d) (at u) \<and> 0 \<le> d"
    using cos_power_integral_deriv by blast
qed

lemma wallis_antimono: "wallis (Suc n) \<le> wallis n"
proof -
  define f where "f = (\<lambda>x. cos_power_integral n x - cos_power_integral (Suc n) x)"
  have "f 0 \<le> f (pi / 2)"
  proof (rule DERIV_nonneg_imp_nondecreasing [where f = f and a = 0 and b = "pi / 2"])
    show "(0::real) \<le> pi / 2"
      by simp
  next
    fix u :: real assume "0 \<le> u" and "u \<le> pi / 2"
    then have c0: "0 \<le> cos u"
      by (intro cos_ge_zero) simp_all
    have "cos u ^ Suc n = cos u ^ n * cos u"
      by simp
    also have "\<dots> \<le> cos u ^ n * 1"
      using c0 by (intro mult_left_mono) simp_all
    finally have "0 \<le> cos u ^ n - cos u ^ Suc n"
      by simp
    moreover have "(f has_real_derivative cos u ^ n - cos u ^ Suc n) (at u)"
      unfolding f_def by (rule DERIV_diff [OF cos_power_integral_deriv cos_power_integral_deriv])
    ultimately show "\<exists>d. (f has_real_derivative d) (at u) \<and> 0 \<le> d"
      by blast
  qed
  then show ?thesis
    by (simp add: f_def wallis_def cos_power_integral_zero)
qed

lemma wallis_square_bound: "wallis (Suc n) ^ 2 \<le> pi / (2 * real (n + 1))"
proof -
  have "wallis (Suc n) * wallis (Suc n) \<le> wallis n * wallis (Suc n)"
    using wallis_antimono [of n] wallis_pos [of "Suc n"] by (intro mult_right_mono) simp_all
  then show ?thesis
    by (simp add: wallis_product power2_eq_square)
qed

lemma gauss_series_zero: "gauss_series 0 = 0"
  by (simp add: gauss_series_factor)

lemma gauss_series_odd: "gauss_series (- x) = - gauss_series x"
  by (simp add: gauss_series_factor)

lemma gauss_series_mono:
  assumes "x \<le> y"
  shows "gauss_series x \<le> gauss_series y"
proof (rule DERIV_nonneg_imp_nondecreasing [OF assms])
  fix u :: real
  have "(0::real) \<le> exp (- (u ^ 2) / 2)"
    by simp
  then show "\<exists>d. (gauss_series has_real_derivative d) (at u) \<and> 0 \<le> d"
    using gauss_series_deriv by blast
qed

lemma exp_neg_half_square_bound:
  "exp (- (u ^ 2) / 2) \<le> (1 / (1 + u ^ 2 / (2 * real (Suc n)))) ^ Suc n"
proof -
  define y where "y = u ^ 2 / (2 * real (Suc n))"
  have y0: "0 \<le> y"
    by (simp add: y_def)
  have "(1 + y) ^ Suc n \<le> exp y ^ Suc n"
    using y0 by (intro power_mono exp_ge_add_one_self) simp
  also have "\<dots> = exp (real (Suc n) * y)"
    by (rule exp_of_nat_mult [symmetric])
  also have "real (Suc n) * y = u ^ 2 / 2"
  proof -
    have cancel: "c * (w / (2 * c)) = w / 2" if "c \<noteq> 0" for c w :: real
      using that by simp
    show ?thesis
      unfolding y_def by (rule cancel) simp
  qed
  finally have "(1 + y) ^ Suc n \<le> exp (u ^ 2 / 2)" .
  moreover have "0 < (1 + y) ^ Suc n"
    using y0 by (intro zero_less_power) simp
  ultimately have "1 / exp (u ^ 2 / 2) \<le> 1 / (1 + y) ^ Suc n"
    by (intro divide_left_mono) simp_all
  moreover have "exp (- (u ^ 2) / 2) = 1 / exp (u ^ 2 / 2)"
    using exp_minus [of "u ^ 2 / 2"] by (simp add: inverse_eq_divide)
  ultimately show ?thesis
    by (simp add: y_def power_one_over)
qed

lemma rational_power_antiderivative:
  assumes "0 < a"
  shows "((\<lambda>u. sqrt a * cos_power_integral (2 * k) (arctan (u / sqrt a))) has_real_derivative
          (1 / (1 + u ^ 2 / a)) ^ Suc k) (at u)"
proof -
  define y where "y = u / sqrt a"
  have ysq: "y ^ 2 = u ^ 2 / a"
    using assms by (simp add: y_def power_divide)
  have lin: "((\<lambda>u. u / sqrt a) has_real_derivative 1 / sqrt a) (at u)"
    by (rule DERIV_cdivide [OF DERIV_ident])
  have at: "((\<lambda>u. arctan (u / sqrt a)) has_real_derivative inverse (1 + y ^ 2) * (1 / sqrt a)) (at u)"
    unfolding y_def by (rule DERIV_chain2 [OF DERIV_arctan lin])
  have "((\<lambda>u. cos_power_integral (2 * k) (arctan (u / sqrt a))) has_real_derivative
          cos (arctan y) ^ (2 * k) * (inverse (1 + y ^ 2) * (1 / sqrt a))) (at u)"
    unfolding y_def by (rule DERIV_chain2 [OF cos_power_integral_deriv at [unfolded y_def]])
  then have "((\<lambda>u. sqrt a * cos_power_integral (2 * k) (arctan (u / sqrt a))) has_real_derivative
          sqrt a * (cos (arctan y) ^ (2 * k) * (inverse (1 + y ^ 2) * (1 / sqrt a)))) (at u)"
    by (rule DERIV_cmult)
  moreover have "sqrt a * (cos (arctan y) ^ (2 * k) * (inverse (1 + y ^ 2) * (1 / sqrt a)))
                 = (1 / (1 + u ^ 2 / a)) ^ Suc k"
  proof -
    have pos: "0 < 1 + y ^ 2"
      by (simp add: add_pos_nonneg)
    have "cos (arctan y) ^ 2 = 1 / (1 + y ^ 2)"
      using pos by (simp add: cos_arctan power_divide)
    then have "cos (arctan y) ^ (2 * k) = (1 / (1 + y ^ 2)) ^ k"
      by (simp add: power_mult)
    moreover have "sqrt a * (X * (Y * (1 / sqrt a))) = X * Y" for X Y
      using assms by simp
    ultimately have "sqrt a * (cos (arctan y) ^ (2 * k) * (inverse (1 + y ^ 2) * (1 / sqrt a)))
          = (1 / (1 + y ^ 2)) ^ k * inverse (1 + y ^ 2)"
      by (simp only:)
    also have "\<dots> = (1 / (1 + y ^ 2)) ^ Suc k"
      by (simp add: inverse_eq_divide)
    finally show ?thesis
      by (simp only: ysq)
  qed
  ultimately show ?thesis
    by simp
qed

lemma gauss_series_le_wallis:
  assumes "0 \<le> x"
  shows "gauss_series x \<le> sqrt (2 * real (Suc n)) * wallis (2 * n)"
proof -
  define a where "a = 2 * real (Suc n)"
  have a0: "0 < a"
    by (simp add: a_def)
  define f where "f = (\<lambda>u. sqrt a * cos_power_integral (2 * n) (arctan (u / sqrt a)) - gauss_series u)"
  have "f 0 \<le> f x"
  proof (rule DERIV_nonneg_imp_nondecreasing [where f = f and a = 0 and b = x])
    show "0 \<le> x"
      by (rule assms)
  next
    fix u :: real
    have "(f has_real_derivative (1 / (1 + u ^ 2 / a)) ^ Suc n - exp (- (u ^ 2) / 2)) (at u)"
      unfolding f_def
      by (rule DERIV_diff [OF rational_power_antiderivative [OF a0] gauss_series_deriv])
    moreover have "0 \<le> (1 / (1 + u ^ 2 / a)) ^ Suc n - exp (- (u ^ 2) / 2)"
      using exp_neg_half_square_bound [of u n] by (simp add: a_def)
    ultimately show "\<exists>d. (f has_real_derivative d) (at u) \<and> 0 \<le> d"
      by blast
  qed
  then have "gauss_series x \<le> sqrt a * cos_power_integral (2 * n) (arctan (x / sqrt a))"
    by (simp add: f_def gauss_series_zero cos_power_integral_zero)
  also have "\<dots> \<le> sqrt a * cos_power_integral (2 * n) (pi / 2)"
  proof (intro mult_left_mono cos_power_integral_mono)
    show "0 \<le> arctan (x / sqrt a)"
      using assms a0 by simp
    show "arctan (x / sqrt a) \<le> pi / 2"
      using arctan_ubound [of "x / sqrt a"] by simp
    show "pi / 2 \<le> pi / 2"
      by simp
    show "0 \<le> sqrt a"
      using a0 by simp
  qed
  finally show ?thesis
    by (simp add: a_def wallis_def)
qed

lemma gauss_series_square_bound:
  assumes "0 \<le> x"
  shows "gauss_series x ^ 2 \<le> pi / 2 * (1 + 1 / real (Suc j))"
proof -
  have g0: "0 \<le> gauss_series x"
    using gauss_series_mono [OF assms] by (simp add: gauss_series_zero)
  have "gauss_series x \<le> sqrt (2 * real (Suc (Suc j))) * wallis (2 * Suc j)"
    using assms by (rule gauss_series_le_wallis)
  then have "gauss_series x ^ 2 \<le> (sqrt (2 * real (Suc (Suc j))) * wallis (2 * Suc j)) ^ 2"
    using g0 by (intro power_mono) simp_all
  also have "\<dots> = 2 * real (Suc (Suc j)) * wallis (Suc (2 * j + 1)) ^ 2"
    by (simp add: power_mult_distrib)
  also have "\<dots> \<le> 2 * real (Suc (Suc j)) * (pi / (2 * real (2 * j + 1 + 1)))"
    by (intro mult_left_mono wallis_square_bound) simp
  also have "\<dots> = pi / 2 * (1 + 1 / real (Suc j))"
    by (simp add: field_simps)
  finally show ?thesis .
qed

lemma gauss_series_upper:
  assumes "0 \<le> x"
  shows "gauss_series x \<le> sqrt (pi / 2)"
proof -
  have "gauss_series x ^ 2 \<le> pi / 2"
  proof (rule field_le_epsilon)
    fix e :: real assume e: "0 < e"
    then have "0 < e / (pi / 2)"
      by simp
    then obtain j where j: "inverse (real (Suc j)) < e / (pi / 2)"
      using reals_Archimedean by blast
    then have "pi / 2 * (1 / real (Suc j)) < e"
      by (simp add: field_simps)
    moreover have "gauss_series x ^ 2 \<le> pi / 2 + pi / 2 * (1 / real (Suc j))"
      using gauss_series_square_bound [OF assms, of j] by (simp add: algebra_simps)
    ultimately show "gauss_series x ^ 2 \<le> pi / 2 + e"
      by simp
  qed
  then show ?thesis
    by (rule real_le_rsqrt)
qed

lemma gauss_series_lower: "- sqrt (pi / 2) \<le> gauss_series x"
proof (cases "0 \<le> x")
  case True
  then have "0 \<le> gauss_series x"
    using gauss_series_mono [of 0 x] by (simp add: gauss_series_zero)
  moreover have "0 \<le> sqrt (pi / 2)"
    by simp
  ultimately show ?thesis
    by linarith
next
  case False
  then have "gauss_series (- x) \<le> sqrt (pi / 2)"
    by (intro gauss_series_upper) simp
  then show ?thesis
    by (simp add: gauss_series_odd)
qed

lemma sqrt_half_pi_ratio: "sqrt (pi / 2) / sqrt (2 * pi) = 1 / 2"
proof -
  have "sqrt (pi / 2) / sqrt (2 * pi) = sqrt ((pi / 2) / (2 * pi))"
    by (simp only: real_sqrt_divide)
  also have "(pi / 2) / (2 * pi) = (1 / 2) ^ 2"
    by (simp add: power2_eq_square)
  finally show ?thesis
    unfolding real_sqrt_abs by simp
qed

lemma std_normal_cdf_nonneg: "0 \<le> std_normal_cdf x"
proof -
  have "- (1 / 2) = - sqrt (pi / 2) / sqrt (2 * pi)"
    using sqrt_half_pi_ratio by simp
  also have "\<dots> \<le> gauss_series x / sqrt (2 * pi)"
    using gauss_series_lower [of x] by (intro divide_right_mono) simp_all
  finally show ?thesis
    by (simp add: std_normal_cdf_def)
qed

lemma std_normal_cdf_le_one: "std_normal_cdf x \<le> 1"
proof -
  have "gauss_series x = - gauss_series (- x)"
    by (simp add: gauss_series_odd)
  then have "gauss_series x \<le> sqrt (pi / 2)"
    using gauss_series_lower [of "- x"] by simp
  then have "gauss_series x / sqrt (2 * pi) \<le> sqrt (pi / 2) / sqrt (2 * pi)"
    by (intro divide_right_mono) simp_all
  also have "\<dots> = 1 / 2"
    by (rule sqrt_half_pi_ratio)
  finally have "gauss_series x / sqrt (2 * pi) \<le> 1 / 2" .
  then show ?thesis
    unfolding std_normal_cdf_def by linarith
qed

lemma std_normal_cdf_deriv:
  "(std_normal_cdf has_real_derivative std_normal_pdf x) (at x)"
proof -
  have "((\<lambda>x. 1 / 2 + gauss_series x / sqrt (2 * pi)) has_real_derivative
          0 + exp (- (x ^ 2) / 2) / sqrt (2 * pi)) (at x)"
    by (rule DERIV_add [OF DERIV_const DERIV_cdivide [OF gauss_series_deriv]])
  moreover have "std_normal_cdf = (\<lambda>x. 1 / 2 + gauss_series x / sqrt (2 * pi))"
    by (rule ext) (simp add: std_normal_cdf_def)
  ultimately show ?thesis
    by (simp add: std_normal_pdf_def)
qed

lemma std_normal_cdf_zero: "std_normal_cdf 0 = 1 / 2"
  by (simp add: std_normal_cdf_def gauss_series_zero)

subsection \<open>Derivatives of the call price\<close>

lemma call_returns_spec_price:
  assumes "0 < s" and "0 < k" and "0 < sigma" and "0 < t"
  shows "call Phi s r (PyFloat sigma) t k = Returns (spec_call_price Phi s r sigma t k)"
proof -
  have "0 < sigma * sqrt t" and "0 < s / k"
    using assms by simp_all
  then show ?thesis
    using assms
    by (simp add: call_def powr_half_sqrt spec_call_price_def spec_d1_def spec_d2_def Let_def
        divide_less_0_iff)
qed

lemma d1_spot_deriv:
  assumes "0 < s" and "0 < k" and "0 < sigma" and "0 < t"
  shows "((\<lambda>s. spec_d1 s r sigma t k) has_real_derivative 1 / (s * (sigma * sqrt t))) (at s)"
  unfolding spec_d1_def using assms
  by (auto intro!: derivative_eq_intros simp add: field_simps)

lemma d1_times_vol:
  assumes "0 < sigma" and "0 < t"
  shows "spec_d1 s r sigma t k * (sigma * sqrt t) = ln (s / k) + (r + sigma ^ 2 / 2) * t"
  using assms by (simp add: spec_d1_def)

lemma pdf_shift:
  assumes "0 < s" and "0 < k" and "0 < sigma" and "0 < t"
  shows "std_normal_pdf (spec_d2 s r sigma t k) * k * exp (- r * t)
         = std_normal_pdf (spec_d1 s r sigma t k) * s"
proof -
  define d where "d = spec_d1 s r sigma t k"
  define v where "v = sigma * sqrt t"
  have vv: "v ^ 2 = sigma ^ 2 * t"
    using assms(4) by (simp add: v_def power_mult_distrib)
  have dv: "d * v = ln (s / k) + (r + sigma ^ 2 / 2) * t"
    unfolding d_def v_def using assms(3,4) by (rule d1_times_vol)
  have "- ((d - v) ^ 2) / 2 = - (d ^ 2) / 2 + (d * v - v ^ 2 / 2)"
    by (simp add: power2_eq_square field_simps)
  also have "\<dots> = - (d ^ 2) / 2 + (ln (s / k) + r * t)"
    by (simp add: dv vv algebra_simps)
  finally have "exp (- ((d - v) ^ 2) / 2) = exp (- (d ^ 2) / 2 + (ln (s / k) + r * t))"
    by simp
  also have "\<dots> = exp (- (d ^ 2) / 2) * (exp (ln (s / k)) * exp (r * t))"
    by (simp only: exp_add)
  also have "exp (ln (s / k)) = s / k"
    using assms(1,2) by simp
  finally have "exp (- ((d - v) ^ 2) / 2) = exp (- (d ^ 2) / 2) * (s / k) * exp (r * t)"
    by simp
  then have "exp (- ((d - v) ^ 2) / 2) * k * exp (- r * t) = exp (- (d ^ 2) / 2) * s"
    using assms(2) by (simp add: exp_minus field_simps)
  then show ?thesis
    by (simp add: std_normal_pdf_def spec_d2_def d_def [symmetric] v_def [symmetric] field_simps)
qed

lemma call_price_spot_deriv:
  assumes cdf: "\<And>x. (Phi has_real_derivative std_normal_pdf x) (at x)"
    and "0 < s" and "0 < k" and "0 < sigma" and "0 < t"
  shows "((\<lambda>s. spec_call_price Phi s r sigma t k) has_real_derivative
          Phi (spec_d1 s r sigma t k)) (at s)"
proof -
  let ?v = "sigma * sqrt t"
  let ?d1 = "\<lambda>s. spec_d1 s r sigma t k"
  have d1: "(?d1 has_real_derivative 1 / (s * ?v)) (at s)"
    using assms(2-5) by (rule d1_spot_deriv)
  have P1: "((\<lambda>s. Phi (?d1 s)) has_real_derivative std_normal_pdf (?d1 s) * (1 / (s * ?v))) (at s)"
    by (rule DERIV_chain2 [OF cdf d1])
  have d2: "((\<lambda>s. ?d1 s - ?v) has_real_derivative 1 / (s * ?v)) (at s)"
    using d1 by (auto intro!: derivative_eq_intros)
  have P2: "((\<lambda>s. Phi (?d1 s - ?v)) has_real_derivative
              std_normal_pdf (?d1 s - ?v) * (1 / (s * ?v))) (at s)"
    by (rule DERIV_chain2 [OF cdf d2])
  have A: "((\<lambda>s. Phi (?d1 s) * s) has_real_derivative
              std_normal_pdf (?d1 s) * (1 / (s * ?v)) * s + 1 * Phi (?d1 s)) (at s)"
    by (rule DERIV_mult [OF P1 DERIV_ident])
  have B: "((\<lambda>s. Phi (?d1 s - ?v) * k * exp (- r * t)) has_real_derivative
              std_normal_pdf (?d1 s - ?v) * (1 / (s * ?v)) * k * exp (- r * t)) (at s)"
    by (rule DERIV_cmult_right [OF DERIV_cmult_right [OF P2]])
  have "((\<lambda>s. Phi (?d1 s) * s - Phi (?d1 s - ?v) * k * exp (- r * t)) has_real_derivative
          (std_normal_pdf (?d1 s) * (1 / (s * ?v)) * s + 1 * Phi (?d1 s))
          - std_normal_pdf (?d1 s - ?v) * (1 / (s * ?v)) * k * exp (- r * t)) (at s)"
    by (rule DERIV_diff [OF A B])
  moreover have "(std_normal_pdf (?d1 s) * (1 / (s * ?v)) * s + 1 * Phi (?d1 s))
          - std_normal_pdf (?d1 s - ?v) * (1 / (s * ?v)) * k * exp (- r * t) = Phi (?d1 s)"
  proof -
    have "std_normal_pdf (?d1 s - ?v) * (1 / (s * ?v)) * k * exp (- r * t)
          = (std_normal_pdf (spec_d2 s r sigma t k) * k * exp (- r * t)) * (1 / (s * ?v))"
      by (simp add: spec_d2_def)
    also have "\<dots> = std_normal_pdf (?d1 s) * s * (1 / (s * ?v))"
      using pdf_shift [OF assms(2-5), of r] by simp
    finally show ?thesis
      by simp
  qed
  ultimately show ?thesis
    by (simp add: spec_call_price_def spec_d2_def)
qed

lemma d1_vol_deriv:
  assumes "0 < sigma" and "0 < t"
  shows "\<exists>D. ((\<lambda>sigma. spec_d1 s r sigma t k) has_real_derivative D) (at sigma)"
proof -
  have "((\<lambda>sigma. (ln (s / k) + (r + sigma ^ 2 / 2) * t) / (sigma * sqrt t)) has_real_derivative
          ((sigma * t) * (sigma * sqrt t) - (ln (s / k) + (r + sigma ^ 2 / 2) * t) * sqrt t)
            / ((sigma * sqrt t) * (sigma * sqrt t))) (at sigma)"
    using assms by (auto intro!: derivative_eq_intros)
  then show ?thesis
    unfolding spec_d1_def by blast
qed

lemma call_price_vol_deriv:
  assumes cdf: "\<And>x. (Phi has_real_derivative std_normal_pdf x) (at x)"
    and "0 < s" and "0 < k" and "0 < sigma" and "0 < t"
  shows "((\<lambda>sigma. spec_call_price Phi s r sigma t k) has_real_derivative
          s * std_normal_pdf (spec_d1 s r sigma t k) * sqrt t) (at sigma)"
proof -
  let ?d1 = "\<lambda>sigma. spec_d1 s r sigma t k"
  obtain D where d1: "(?d1 has_real_derivative D) (at sigma)"
    using d1_vol_deriv [OF assms(4,5)] by blast
  have P1: "((\<lambda>sigma. Phi (?d1 sigma)) has_real_derivative std_normal_pdf (?d1 sigma) * D) (at sigma)"
    by (rule DERIV_chain2 [OF cdf d1])
  have v: "((\<lambda>sigma. sigma * sqrt t) has_real_derivative 1 * sqrt t) (at sigma)"
    by (rule DERIV_cmult_right [OF DERIV_ident])
  have d2: "((\<lambda>sigma. ?d1 sigma - sigma * sqrt t) has_real_derivative D - 1 * sqrt t) (at sigma)"
    by (rule DERIV_diff [OF d1 v])
  have P2: "((\<lambda>sigma. Phi (?d1 sigma - sigma * sqrt t)) has_real_derivative
              std_normal_pdf (?d1 sigma - sigma * sqrt t) * (D - 1 * sqrt t)) (at sigma)"
    by (rule DERIV_chain2 [OF cdf d2])
  have A: "((\<lambda>sigma. Phi (?d1 sigma) * s) has_real_derivative
              std_normal_pdf (?d1 sigma) * D * s) (at sigma)"
    by (rule DERIV_cmult_right [OF P1])
  have B: "((\<lambda>sigma. Phi (?d1 sigma - sigma * sqrt t) * k * exp (- r * t)) has_real_derivative
              std_normal_pdf (?d1 sigma - sigma * sqrt t) * (D - 1 * sqrt t) * k * exp (- r * t)) (at sigma)"
    by (rule DERIV_cmult_right [OF DERIV_cmult_right [OF P2]])
  have "((\<lambda>sigma. Phi (?d1 sigma) * s - Phi (?d1 sigma - sigma * sqrt t) * k * exp (- r * t))
          has_real_derivative
          std_normal_pdf (?d1 sigma) * D * s
          - std_normal_pdf (?d1 sigma - sigma * sqrt t) * (D - 1 * sqrt t) * k * exp (- r * t)) (at sigma)"
    by (rule DERIV_diff [OF A B])
  moreover have "std_normal_pdf (?d1 sigma) * D * s
          - std_normal_pdf (?d1 sigma - sigma * sqrt t) * (D - 1 * sqrt t) * k * exp (- r * t)
          = s * std_normal_pdf (?d1 sigma) * sqrt t"
  proof -
    have "std_normal_pdf (?d1 sigma - sigma * sqrt t) * (D - 1 * sqrt t) * k * exp (- r * t)
          = (std_normal_pdf (spec_d2 s r sigma t k) * k * exp (- r * t)) * (D - sqrt t)"
      by (simp add: spec_d2_def)
    also have "\<dots> = std_normal_pdf (?d1 sigma) * s * (D - sqrt t)"
      using pdf_shift [OF assms(2-5), of r] by simp
    finally show ?thesis
      by (simp add: algebra_simps)
  qed
  ultimately show ?thesis
    by (simp add: spec_call_price_def spec_d2_def)
qed

lemma std_normal_pdf_pos: "0 < std_normal_pdf x"
  by (simp add: std_normal_pdf_def)

lemma call_price_mono_spot:
  assumes cdf: "\<And>x. (Phi has_real_derivative std_normal_pdf x) (at x)"
    and nonneg: "\<And>x. 0 \<le> Phi x"
    and "0 < k" and "0 < sigma" and "0 < t" and "0 < s1" and "s1 \<le> s2"
  shows "spec_call_price Phi s1 r sigma t k \<le> spec_call_price Phi s2 r sigma t k"
proof (rule DERIV_nonneg_imp_nondecreasing [OF assms(7)])
  fix s assume "s1 \<le> s"
  then have "0 < s"
    using assms(6) by simp
  then have "((\<lambda>s. spec_call_price Phi s r sigma t k) has_real_derivative
          Phi (spec_d1 s r sigma t k)) (at s)"
    using assms(3-5) by (intro call_price_spot_deriv cdf)
  then show "\<exists>y. ((\<lambda>s. spec_call_price Phi s r sigma t k) has_real_derivative y) (at s) \<and> 0 \<le> y"
    using nonneg by blast
qed

lemma call_price_mono_vol:
  assumes cdf: "\<And>x. (Phi has_real_derivative std_normal_pdf x) (at x)"
    and "0 < s" and "0 < k" and "0 < t" and "0 < sigma1" and "sigma1 \<le> sigma2"
  shows "spec_call_price Phi s r sigma1 t k \<le> spec_call_price Phi s r sigma2 t k"
proof (rule DERIV_nonneg_imp_nondecreasing [OF assms(6)])
  fix sigma assume "sigma1 \<le> sigma"
  then have "0 < sigma"
    using assms(5) by simp
  then have "((\<lambda>sigma. spec_call_price Phi s r sigma t k) has_real_derivative
          s * std_normal_pdf (spec_d1 s r sigma t k) * sqrt t) (at sigma)"
    using assms(2-4) by (intro call_price_vol_deriv cdf)
  moreover have "0 \<le> s * std_normal_pdf (spec_d1 s r sigma t k) * sqrt t"
    using assms(2,4) std_normal_pdf_pos [of "spec_d1 s r sigma t k"] by simp
  ultimately show "\<exists>y. ((\<lambda>sigma. spec_call_price Phi s r sigma t k) has_real_derivative y) (at sigma) \<and> 0 \<le> y"
    by blast
qed

subsection \<open>Bounds by comparison of derivatives\<close>

text \<open>
  Two functions that agree at \<open>0\<close> are ordered on \<open>[0, x]\<close> as their derivatives are.
  This gives polynomial bounds for \<open>exp\<close>, \<open>ln\<close>, \<open>arctan\<close> and the Gauss series, and
  with Machin's formula rational bounds for \<open>pi\<close>.
\<close>

lemma deriv_le_imp_le:
  fixes f g :: "real \<Rightarrow> real"
  assumes "0 \<le> x"
    and f: "\<And>u. 0 \<le> u \<Longrightarrow> u \<le> x \<Longrightarrow> (f has_real_derivative f' u) (at u)"
    and g: "\<And>u. 0 \<le> u \<Longrightarrow> u \<le> x \<Longrightarrow> (g has_real_derivative g' u) (at u)"
    and le: "\<And>u. 0 \<le> u \<Longrightarrow> u \<le> x \<Longrightarrow> f' u \<le> g' u"
    and start: "f 0 = g 0"
  shows "f x \<le> g x"
proof -
  define h where "h = (\<lambda>u. g u - f u)"
  have "h 0 \<le> h x"
  proof (rule DERIV_nonneg_imp_nondecreasing [where f = h and a = 0 and b = x])
    show "0 \<le> x"
      by (rule assms(1))
  next
    fix u assume u: "0 \<le> u" "u \<le> x"
    have "(h has_real_derivative g' u - f' u) (at u)"
      unfolding h_def by (rule DERIV_diff [OF g [OF u] f [OF u]])
    moreover have "0 \<le> g' u - f' u"
      using le [OF u] by simp
    ultimately show "\<exists>d. (h has_real_derivative d) (at u) \<and> 0 \<le> d"
      by blast
  qed
  then show ?thesis
    by (simp add: h_def start)
qed

lemma exp_neg_deriv: "((\<lambda>y. exp (- y)) has_real_derivative - exp (- y)) (at y)" for y :: real
  by (auto intro!: derivative_eq_intros)

lemma exp_neg_lower1: "1 - y \<le> exp (- y)" for y :: real
  using exp_ge_add_one_self [of "- y"] by simp

lemma exp_neg_upper2:
  fixes y :: real
  assumes "0 \<le> y"
  shows "exp (- y) \<le> 1 - y + y ^ 2 / 2"
proof (rule deriv_le_imp_le [where f' = "\<lambda>u. - exp (- u)" and g' = "\<lambda>u. - 1 + u", OF assms])
  fix u :: real
  show "((\<lambda>y. exp (- y)) has_real_derivative - exp (- u)) (at u)"
    by (rule exp_neg_deriv)
  show "((\<lambda>y. 1 - y + y ^ 2 / 2) has_real_derivative - 1 + u) (at u)"
    by (auto intro!: derivative_eq_intros)
  show "- exp (- u) \<le> - 1 + u"
    using exp_neg_lower1 [of u] by simp
qed simp

lemma exp_neg_lower3:
  fixes y :: real
  assumes "0 \<le> y"
  shows "1 - y + y ^ 2 / 2 - y ^ 3 / 6 \<le> exp (- y)"
proof (rule deriv_le_imp_le [where g' = "\<lambda>u. - exp (- u)" and f' = "\<lambda>u. - 1 + u - u ^ 2 / 2", OF assms])
  fix u :: real
  assume "0 \<le> u"
  show "((\<lambda>y. exp (- y)) has_real_derivative - exp (- u)) (at u)"
    by (rule exp_neg_deriv)
  show "((\<lambda>y. 1 - y + y ^ 2 / 2 - y ^ 3 / 6) has_real_derivative - 1 + u - u ^ 2 / 2) (at u)"
    by (auto intro!: derivative_eq_intros)
  show "- 1 + u - u ^ 2 / 2 \<le> - exp (- u)"
    using exp_neg_upper2 [OF \<open>0 \<le> u\<close>] by simp
qed simp

lemma gauss_series_poly_upper:
  assumes "0 \<le> x"
  shows "gauss_series x \<le> x - x ^ 3 / 6 + x ^ 5 / 40"
proof (rule deriv_le_imp_le [where f' = "\<lambda>u. exp (- (u ^ 2) / 2)"
      and g' = "\<lambda>u. 1 - u ^ 2 / 2 + u ^ 4 / 8", OF assms])
  fix u :: real
  show "(gauss_series has_real_derivative exp (- (u ^ 2) / 2)) (at u)"
    by (rule gauss_series_deriv)
  show "((\<lambda>x. x - x ^ 3 / 6 + x ^ 5 / 40) has_real_derivative 1 - u ^ 2 / 2 + u ^ 4 / 8) (at u)"
    by (auto intro!: derivative_eq_intros)
  show "exp (- (u ^ 2) / 2) \<le> 1 - u ^ 2 / 2 + u ^ 4 / 8"
    using exp_neg_upper2 [of "u ^ 2 / 2"] by (simp add: power_divide)
qed (simp add: gauss_series_zero)

lemma gauss_series_poly_lower:
  assumes "0 \<le> x"
  shows "x - x ^ 3 / 6 + x ^ 5 / 40 - x ^ 7 / 336 \<le> gauss_series x"
proof (rule deriv_le_imp_le [where g' = "\<lambda>u. exp (- (u ^ 2) / 2)"
      and f' = "\<lambda>u. 1 - u ^ 2 / 2 + u ^ 4 / 8 - u ^ 6 / 48", OF assms])
  fix u :: real
  show "(gauss_series has_real_derivative exp (- (u ^ 2) / 2)) (at u)"
    by (rule gauss_series_deriv)
  show "((\<lambda>x. x - x ^ 3 / 6 + x ^ 5 / 40 - x ^ 7 / 336) has_real_derivative
          1 - u ^ 2 / 2 + u ^ 4 / 8 - u ^ 6 / 48) (at u)"
    by (auto intro!: derivative_eq_intros)
  show "1 - u ^ 2 / 2 + u ^ 4 / 8 - u ^ 6 / 48 \<le> exp (- (u ^ 2) / 2)"
    using exp_neg_lower3 [of "u ^ 2 / 2"] by (simp add: power_divide)
qed (simp add: gauss_series_zero)

lemma ln_one_plus_upper5:
  fixes x :: real
  assumes "0 \<le> x"
  shows "ln (1 + x) \<le> x - x ^ 2 / 2 + x ^ 3 / 3 - x ^ 4 / 4 + x ^ 5 / 5"
proof (rule deriv_le_imp_le [where f' = "\<lambda>u. 1 / (1 + u)"
      and g' = "\<lambda>u. 1 - u + u ^ 2 - u ^ 3 + u ^ 4", OF assms])
  fix u :: real
  assume u: "0 \<le> u"
  show "((\<lambda>x. ln (1 + x)) has_real_derivative 1 / (1 + u)) (at u)"
    using u by (auto intro!: derivative_eq_intros)
  show "((\<lambda>x. x - x ^ 2 / 2 + x ^ 3 / 3 - x ^ 4 / 4 + x ^ 5 / 5) has_real_derivative
          1 - u + u ^ 2 - u ^ 3 + u ^ 4) (at u)"
    by (auto intro!: derivative_eq_intros)
  have "(1 - u + u ^ 2 - u ^ 3 + u ^ 4) * (1 + u) = 1 + u ^ 5"
    by (simp add: algebra_simps eval_nat_numeral)
  moreover have "0 \<le> u ^ 5"
    using u by simp
  ultimately have "1 \<le> (1 - u + u ^ 2 - u ^ 3 + u ^ 4) * (1 + u)"
    by simp
  then show "1 / (1 + u) \<le> 1 - u + u ^ 2 - u ^ 3 + u ^ 4"
    using u by (simp add: pos_divide_le_eq)
qed simp

lemma ln_one_plus_lower6:
  fixes x :: real
  assumes "0 \<le> x"
  shows "x - x ^ 2 / 2 + x ^ 3 / 3 - x ^ 4 / 4 + x ^ 5 / 5 - x ^ 6 / 6 \<le> ln (1 + x)"
proof (rule deriv_le_imp_le [where g' = "\<lambda>u. 1 / (1 + u)"
      and f' = "\<lambda>u. 1 - u + u ^ 2 - u ^ 3 + u ^ 4 - u ^ 5", OF assms])
  fix u :: real
  assume u: "0 \<le> u"
  show "((\<lambda>x. ln (1 + x)) has_real_derivative 1 / (1 + u)) (at u)"
    using u by (auto intro!: derivative_eq_intros)
  show "((\<lambda>x. x - x ^ 2 / 2 + x ^ 3 / 3 - x ^ 4 / 4 + x ^ 5 / 5 - x ^ 6 / 6) has_real_derivative
          1 - u + u ^ 2 - u ^ 3 + u ^ 4 - u ^ 5) (at u)"
    by (auto intro!: derivative_eq_intros)
  have "(1 - u + u ^ 2 - u ^ 3 + u ^ 4 - u ^ 5) * (1 + u) = 1 - u ^ 6"
    by (simp add: algebra_simps eval_nat_numeral)
  moreover have "0 \<le> u ^ 6"
    using u by simp
  ultimately have "(1 - u + u ^ 2 - u ^ 3 + u ^ 4 - u ^ 5) * (1 + u) \<le> 1"
    by simp
  then show "1 - u + u ^ 2 - u ^ 3 + u ^ 4 - u ^ 5 \<le> 1 / (1 + u)"
    using u by (simp add: pos_le_divide_eq)
qed simp

lemma arctan_upper9:
  fixes x :: real
  assumes "0 \<le> x"
  shows "arctan x \<le> x - x ^ 3 / 3 + x ^ 5 / 5 - x ^ 7 / 7 + x ^ 9 / 9"
proof (rule deriv_le_imp_le [where f' = "\<lambda>u. inverse (1 + u ^ 2)"
      and g' = "\<lambda>u. 1 - u ^ 2 + u ^ 4 - u ^ 6 + u ^ 8", OF assms])
  fix u :: real
  show "(arctan has_real_derivative inverse (1 + u ^ 2)) (at u)"
    by (rule DERIV_arctan)
  show "((\<lambda>x. x - x ^ 3 / 3 + x ^ 5 / 5 - x ^ 7 / 7 + x ^ 9 / 9) has_real_derivative
          1 - u ^ 2 + u ^ 4 - u ^ 6 + u ^ 8) (at u)"
    by (auto intro!: derivative_eq_intros)
  have pos: "0 < 1 + u ^ 2"
    by (simp add: add_pos_nonneg)
  have "(1 - u ^ 2 + u ^ 4 - u ^ 6 + u ^ 8) * (1 + u ^ 2) = 1 + u ^ 10"
    by (simp add: algebra_simps eval_nat_numeral)
  moreover have "0 \<le> u ^ 10"
    by simp
  ultimately have "1 \<le> (1 - u ^ 2 + u ^ 4 - u ^ 6 + u ^ 8) * (1 + u ^ 2)"
    by simp
  then show "inverse (1 + u ^ 2) \<le> 1 - u ^ 2 + u ^ 4 - u ^ 6 + u ^ 8"
    using pos by (simp add: inverse_eq_divide pos_divide_le_eq)
qed simp

lemma arctan_lower7:
  fixes x :: real
  assumes "0 \<le> x"
  shows "x - x ^ 3 / 3 + x ^ 5 / 5 - x ^ 7 / 7 \<le> arctan x"
proof (rule deriv_le_imp_le [where g' = "\<lambda>u. inverse (1 + u ^ 2)"
      and f' = "\<lambda>u. 1 - u ^ 2 + u ^ 4 - u ^ 6", OF assms])
  fix u :: real
  show "(arctan has_real_derivative inverse (1 + u ^ 2)) (at u)"
    by (rule DERIV_arctan)
  show "((\<lambda>x. x - x ^ 3 / 3 + x ^ 5 / 5 - x ^ 7 / 7) has_real_derivative
          1 - u ^ 2 + u ^ 4 - u ^ 6) (at u)"
    by (auto intro!: derivative_eq_intros)
  have pos: "0 < 1 + u ^ 2"
    by (simp add: add_pos_nonneg)
  have "(1 - u ^ 2 + u ^ 4 - u ^ 6) * (1 + u ^ 2) = 1 - u ^ 8"
    by (simp add: algebra_simps eval_nat_numeral)
  moreover have "0 \<le> u ^ 8"
    by simp
  ultimately have "(1 - u ^ 2 + u ^ 4 - u ^ 6) * (1 + u ^ 2) \<le> 1"
    by simp
  then show "1 - u ^ 2 + u ^ 4 - u ^ 6 \<le> inverse (1 + u ^ 2)"
    using pos by (simp add: inverse_eq_divide pos_le_divide_eq)
qed simp

lemma pi_lower: "314159 / 100000 \<le> pi"
proof -
  have a: "(1 / 5) - (1 / 5) ^ 3 / 3 + (1 / 5) ^ 5 / 5 - (1 / 5) ^ 7 / 7 \<le> arctan (1 / 5 :: real)"
    by (rule arctan_lower7) simp
  have b: "arctan (1 / 239 :: real) \<le> (1 / 239) - (1 / 239) ^ 3 / 3 + (1 / 239) ^ 5 / 5 - (1 / 239) ^ 7 / 7 + (1 / 239) ^ 9 / 9"
    by (rule arctan_upper9) simp
  have "pi = 16 * arctan (1 / 5) - 4 * arctan (1 / 239)"
    using machin by simp
  then show ?thesis
    using a b by (simp add: power_divide)
qed

lemma pi_upper: "pi \<le> 31416 / 10000"
proof -
  have a: "arctan (1 / 5 :: real) \<le> (1 / 5) - (1 / 5) ^ 3 / 3 + (1 / 5) ^ 5 / 5 - (1 / 5) ^ 7 / 7 + (1 / 5) ^ 9 / 9"
    by (rule arctan_upper9) simp
  have b: "(1 / 239) - (1 / 239) ^ 3 / 3 + (1 / 239) ^ 5 / 5 - (1 / 239) ^ 7 / 7 \<le> arctan (1 / 239 :: real)"
    by (rule arctan_lower7) simp
  have "pi = 16 * arctan (1 / 5) - 4 * arctan (1 / 239)"
    using machin by simp
  then show ?thesis
    using a b by (simp add: power_divide)
qed

lemma sqrt_two_pi_lower: "250662 / 100000 \<le> sqrt (2 * pi)"
proof (rule real_le_rsqrt)
  show "(250662 / 100000 :: real) ^ 2 \<le> 2 * pi"
    using pi_lower by (simp add: power_divide)
qed

lemma sqrt_two_pi_upper: "sqrt (2 * pi) \<le> 250664 / 100000"
proof (rule real_le_lsqrt)
  show "2 * pi \<le> (250664 / 100000 :: real) ^ 2"
    using pi_upper by (simp add: power_divide)
qed simp_all

lemma ln_21_20_bounds: "4879016 / 100000000 \<le> ln (21 / 20 :: real) \<and> ln (21 / 20 :: real) \<le> 4879017 / 100000000"
proof -
  have "ln (1 + 1 / 20 :: real) \<le> (1 / 20) - (1 / 20) ^ 2 / 2 + (1 / 20) ^ 3 / 3 - (1 / 20) ^ 4 / 4 + (1 / 20) ^ 5 / 5"
    by (rule ln_one_plus_upper5) simp
  moreover have "(1 / 20) - (1 / 20) ^ 2 / 2 + (1 / 20) ^ 3 / 3 - (1 / 20) ^ 4 / 4 + (1 / 20) ^ 5 / 5 - (1 / 20) ^ 6 / 6
      \<le> ln (1 + 1 / 20 :: real)"
    by (rule ln_one_plus_lower6) simp
  moreover have "(1 + 1 / 20 :: real) = 21 / 20"
    by simp
  ultimately show ?thesis
    by (simp add: power_divide)
qed

subsection \<open>The scenario of the notebook\<close>

text \<open>\<^verbatim>\<open>call(100, 0.03, 0.4, 3.0/12, 105)\<close>, for which the notebook prints \<^verbatim>\<open>6.19785003662\<close>.\<close>

lemma std_normal_cdf_mono:
  assumes "x \<le> y"
  shows "std_normal_cdf x \<le> std_normal_cdf y"
proof -
  have "gauss_series x / sqrt (2 * pi) \<le> gauss_series y / sqrt (2 * pi)"
    using gauss_series_mono [OF assms] by (intro divide_right_mono) simp_all
  then show ?thesis
    by (simp add: std_normal_cdf_def)
qed

lemma std_normal_cdf_neg_lower:
  assumes "0 \<le> q"
  shows "1 / 2 - (q - q ^ 3 / 6 + q ^ 5 / 40) / (250662 / 100000) \<le> std_normal_cdf (- q)"
proof -
  have "0 \<le> gauss_series q"
    using gauss_series_mono [of 0 q] assms by (simp add: gauss_series_zero)
  then have "gauss_series q / sqrt (2 * pi) \<le> (q - q ^ 3 / 6 + q ^ 5 / 40) / (250662 / 100000)"
    using gauss_series_poly_upper [OF assms] sqrt_two_pi_lower
    by (intro frac_le) simp_all
  then show ?thesis
    by (simp add: std_normal_cdf_def gauss_series_odd)
qed

lemma std_normal_cdf_neg_upper:
  assumes "0 \<le> q" and "0 \<le> q - q ^ 3 / 6 + q ^ 5 / 40 - q ^ 7 / 336"
  shows "std_normal_cdf (- q) \<le> 1 / 2 - (q - q ^ 3 / 6 + q ^ 5 / 40 - q ^ 7 / 336) / (250664 / 100000)"
proof -
  have "0 < sqrt (2 * pi)"
    by simp
  then have "(q - q ^ 3 / 6 + q ^ 5 / 40 - q ^ 7 / 336) / (250664 / 100000) \<le> gauss_series q / sqrt (2 * pi)"
    using gauss_series_poly_lower [OF assms(1)] sqrt_two_pi_upper assms(2)
    by (intro frac_le) simp_all
  then show ?thesis
    by (simp add: std_normal_cdf_def gauss_series_odd)
qed

lemma sqrt_quarter: "sqrt (1 / 4) = 1 / 2"
  by (rule real_sqrt_unique) (simp_all add: power_divide)

lemma ln_20_21: "ln (20 / 21 :: real) = - ln (21 / 20)"
  using ln_div [of 20 "21 :: real"] ln_div [of 21 "20 :: real"] by simp

lemma scenario_d1: "spec_d1 100 (3 / 100) (4 / 10) (1 / 4) 105 = 5 * (11 / 400 - ln (21 / 20))"
  by (simp add: spec_d1_def power_divide sqrt_quarter ln_20_21)

lemma scenario_d2:
  "spec_d2 100 (3 / 100) (4 / 10) (1 / 4) 105 = spec_d1 100 (3 / 100) (4 / 10) (1 / 4) 105 - 1 / 5"
  by (simp add: spec_d2_def sqrt_quarter)

lemma scenario_d1_bounds:
  "- (2129017 / 20000000) \<le> spec_d1 100 (3 / 100) (4 / 10) (1 / 4) 105
   \<and> spec_d1 100 (3 / 100) (4 / 10) (1 / 4) 105 \<le> - (266127 / 2500000)"
  unfolding scenario_d1 using ln_21_20_bounds by simp

lemma scenario_d2_bounds:
  "- (6129017 / 20000000) \<le> spec_d2 100 (3 / 100) (4 / 10) (1 / 4) 105
   \<and> spec_d2 100 (3 / 100) (4 / 10) (1 / 4) 105 \<le> - (766127 / 2500000)"
  unfolding scenario_d2 scenario_d1 using ln_21_20_bounds by simp

lemma scenario_cdf_d1:
  "4576121 / 10000000 \<le> std_normal_cdf (spec_d1 100 (3 / 100) (4 / 10) (1 / 4) 105)
   \<and> std_normal_cdf (spec_d1 100 (3 / 100) (4 / 10) (1 / 4) 105) \<le> 4576126 / 10000000"
proof -
  let ?d = "spec_d1 100 (3 / 100) (4 / 10) (1 / 4) 105"
  have "std_normal_cdf (- (2129017 / 20000000)) \<le> std_normal_cdf ?d"
    using scenario_d1_bounds by (intro std_normal_cdf_mono) simp
  moreover have "4576121 / 10000000 \<le> std_normal_cdf (- (2129017 / 20000000))"
    using std_normal_cdf_neg_lower [of "2129017 / 20000000"] by (simp add: power_divide)
  moreover have "std_normal_cdf ?d \<le> std_normal_cdf (- (266127 / 2500000))"
    using scenario_d1_bounds by (intro std_normal_cdf_mono) simp
  moreover have "std_normal_cdf (- (266127 / 2500000)) \<le> 4576126 / 10000000"
    using std_normal_cdf_neg_upper [of "266127 / 2500000"] by (simp add: power_divide)
  ultimately show ?thesis
    by linarith
qed

lemma scenario_cdf_d2:
  "37963 / 100000 \<le> std_normal_cdf (spec_d2 100 (3 / 100) (4 / 10) (1 / 4) 105)
   \<and> std_normal_cdf (spec_d2 100 (3 / 100) (4 / 10) (1 / 4) 105) \<le> 3796313 / 10000000"
proof -
  let ?d = "spec_d2 100 (3 / 100) (4 / 10) (1 / 4) 105"
  have "std_normal_cdf (- (6129017 / 20000000)) \<le> std_normal_cdf ?d"
    using scenario_d2_bounds by (intro std_normal_cdf_mono) simp
  moreover have "37963 / 100000 \<le> std_normal_cdf (- (6129017 / 20000000))"
    using std_normal_cdf_neg_lower [of "6129017 / 20000000"] by (simp add: power_divide)
  moreover have "std_normal_cdf ?d \<le> std_normal_cdf (- (766127 / 2500000))"
    using scenario_d2_bounds by (intro std_normal_cdf_mono) simp
  moreover have "std_normal_cdf (- (766127 / 2500000)) \<le> 3796313 / 10000000"
    using std_normal_cdf_neg_upper [of "766127 / 2500000"] by (simp add: power_divide)
  ultimately show ?thesis
    by linarith
qed

lemma scenario_discount:
  "19850561 / 20000000 \<le> exp (- (3 / 100) * (1 / 4) :: real)
   \<and> exp (- (3 / 100) * (1 / 4) :: real) \<le> 99252813 / 100000000"
  using exp_neg_lower3 [of "3 / 400"] exp_neg_upper2 [of "3 / 400"]
  by (simp add: power_divide)

lemma scenario_price_bounds:
  "61969 / 10000 \<le> spec_call_price std_normal_cdf 100 (3 / 100) (4 / 10) (1 / 4) 105
   \<and> spec_call_price std_normal_cdf 100 (3 / 100) (4 / 10) (1 / 4) 105 \<le> 61989 / 10000"
proof -
  define P1 where "P1 = std_normal_cdf (spec_d1 100 (3 / 100) (4 / 10) (1 / 4) 105)"
  define P2 where "P2 = std_normal_cdf (spec_d2 100 (3 / 100) (4 / 10) (1 / 4) 105)"
  define E where "E = exp (- (3 / 100) * (1 / 4) :: real)"
  have p1: "4576121 / 10000000 \<le> P1" "P1 \<le> 4576126 / 10000000"
    using scenario_cdf_d1 by (simp_all add: P1_def)
  have p2: "37963 / 100000 \<le> P2" "P2 \<le> 3796313 / 10000000"
    using scenario_cdf_d2 by (simp_all add: P2_def)
  have e: "19850561 / 20000000 \<le> E" "E \<le> 99252813 / 100000000"
    using scenario_discount by (simp_all add: E_def)
  have "(37963 / 100000) * (19850561 / 20000000) \<le> P2 * E"
    using p2(1) e(1) by (intro mult_mono) simp_all
  moreover have "P2 * E \<le> (3796313 / 10000000) * (99252813 / 100000000)"
    using p2 e by (intro mult_mono) simp_all
  moreover have "spec_call_price std_normal_cdf 100 (3 / 100) (4 / 10) (1 / 4) 105
                 = P1 * 100 - 105 * (P2 * E)"
    by (simp add: spec_call_price_def P1_def P2_def E_def)
  ultimately show ?thesis
    using p1 by simp
qed


subsection \<open>An int volatility\<close>

text \<open>\<^verbatim>\<open>call(100, 0, 1, 1, 100)\<close> and \<^verbatim>\<open>call(100, 0, 0.9, 1, 100)\<close>.\<close>

lemma gauss_series_at_one: "gauss_series 1 \<le> 103 / 120"
  using gauss_series_poly_upper [of 1] by simp

lemma gauss_series_at_half: "4799 / 10000 \<le> gauss_series (1 / 2)"
  using gauss_series_poly_lower [of "1 / 2"] by (simp add: power_divide)

lemma gauss_series_at_nine_twentieths: "4352 / 10000 \<le> gauss_series (9 / 20)"
  using gauss_series_poly_lower [of "9 / 20"] by (simp add: power_divide)

lemma call_int_one:
  "call std_normal_cdf 100 0 (PyInt 1) 1 100 = Returns (100 * (gauss_series 1 / sqrt (2 * pi)))"
  by (simp add: call_def Let_def std_normal_cdf_def gauss_series_odd gauss_series_zero algebra_simps)

lemma spec_price_vol_one:
  "std_normal_cdf (spec_d1 100 0 1 1 100) * 100
     - std_normal_cdf (spec_d2 100 0 1 1 100) * 100 * exp (- 0 * 1)
   = 100 * (2 * gauss_series (1 / 2) / sqrt (2 * pi))"
  by (simp add: spec_d1_def spec_d2_def std_normal_cdf_def gauss_series_odd algebra_simps)

lemma call_float_nine_tenths:
  "call std_normal_cdf 100 0 (PyFloat (9 / 10)) 1 100
     = Returns (100 * (2 * gauss_series (9 / 20) / sqrt (2 * pi)))"
proof -
  have d1: "spec_d1 100 0 (9 / 10) 1 100 = 9 / 20"
    by (simp add: spec_d1_def power_divide)
  have d2: "spec_d2 100 0 (9 / 10) 1 100 = - (9 / 20)"
    by (simp add: spec_d2_def spec_d1_def power_divide)
  have "call std_normal_cdf 100 0 (PyFloat (9 / 10)) 1 100
      = Returns (spec_call_price std_normal_cdf 100 0 (9 / 10) 1 100)"
    by (rule call_returns_spec_price) simp_all
  also have "spec_call_price std_normal_cdf 100 0 (9 / 10) 1 100
      = 100 * (2 * gauss_series (9 / 20) / sqrt (2 * pi))"
    unfolding spec_call_price_def d1 d2
    by (simp add: std_normal_cdf_def gauss_series_odd algebra_simps)
  finally show ?thesis .
qed


subsection \<open>Names in the body of \<^verbatim>\<open>bsm\<close>\<close>


lemma lookup_parameter: "ps x = Some v \<Longrightarrow> lookup ps g x = Returns v"
  by (simp add: lookup_def)

lemma lookup_global: "ps x = None \<Longrightarrow> g x = g' x \<Longrightarrow> lookup ps g x = lookup ps g' x"
  by (simp add: lookup_def)



text \<open>In exact arithmetic the expression evaluates to what \<open>bsm\<close> and \<open>bsm_array\<close> give.\<close>

lemma elements_returns: "elements (map (\<lambda>x. Returns (f x)) xs) = Returns (NdArray (map f xs))"
  by (induction xs) simp_all

lemma times_left: "number_operation Times a = (\<lambda>x. Returns (a * x))"
  by (rule ext) simp

lemma plus_left: "number_operation Plus a = (\<lambda>x. Returns (a + x))"
  by (rule ext) simp

lemma power_two: "number_operation Power a 2 = Returns (a ^ 2)"
  by simp

lemma power_half:
  "number_operation Power a (1 / 2) = (if a < 0 then Raises ValueError else Returns (a powr (1 / 2)))"
  by simp

lemma bsm_call_exact_scalar:
  assumes "globals ''np'' = Some (Object ''numpy'')"
  shows "bsm_call exact_semantics globals (Number s_0) (Number r) (Number sigma) (Number t) (Number z)
         = (case bsm s_0 r sigma t z of
              Returns p \<Rightarrow> Returns (Number p) | Raises e \<Rightarrow> Raises e | NonFinite \<Rightarrow> NonFinite)"
  using assms
  by (simp add: bsm_call_def bsm_body_def lookup_def exact_semantics_def bsm_def
      power_two power_half
      del: number_operation.simps(5) cong: outcome.case_cong)

lemma bsm_call_exact_array:
  assumes "globals ''np'' = Some (Object ''numpy'')"
  shows "bsm_call exact_semantics globals (Number s_0) (Number r) (Number sigma) (Number t) (NdArray zs)
         = (case bsm_array s_0 r sigma t zs of
              Returns ps \<Rightarrow> Returns (NdArray ps) | Raises e \<Rightarrow> Raises e | NonFinite \<Rightarrow> NonFinite)"
  using assms
  by (simp add: bsm_call_def bsm_body_def lookup_def exact_semantics_def bsm_array_def
      power_two power_half times_left plus_left elements_returns scalar_times_array_def np_exp_def
      scalar_plus_array_def array_times_scalar_def comp_def
      del: number_operation.simps(5) cong: outcome.case_cong)

subsection \<open>Underflow in the range of doubles\<close>

lemma thresholds: "underflow_threshold < 1 / 1000000" "1000000 < overflow_threshold"
  by (simp_all add: underflow_threshold_def overflow_threshold_def)

lemma to_double_moderate:
  assumes "1 / 1000000 \<le> \<bar>x\<bar>" and "\<bar>x\<bar> \<le> 1000000"
  shows "to_double x = Finite x"
  using assms thresholds by (auto simp add: to_double_def)

lemma to_double_zero: "to_double 0 = Finite 0"
  using thresholds by (simp add: to_double_def underflow_threshold_def)

lemma to_double_not_below_zero: "0 \<le> x \<Longrightarrow> not_below_zero (to_double x)"
  by (simp add: to_double_def overflow_threshold_def)

lemma double_exp_not_below_zero: "not_below_zero (double_exp v)"
  by (cases v) (simp_all add: to_double_not_below_zero)

lemma double_times_not_below_zero:
  assumes "0 < a" and "not_below_zero v"
  shows "not_below_zero (double_times (Finite a) v)"
  using assms by (cases v) (simp_all add: to_double_not_below_zero)

lemma price_double_not_below_zero: "0 < s_0 \<Longrightarrow> not_below_zero (price_double s_0 r sigma t z)"
  unfolding price_double_def
  by (intro double_times_not_below_zero double_exp_not_below_zero)

lemma exp_deep_underflow: "exp (- (160001 / 80) :: real) \<le> underflow_threshold"
proof -
  have "(2 :: real) \<le> exp 1"
    using exp_ge_add_one_self [of "1 :: real"] by simp
  then have "(2 :: real) ^ 1075 \<le> exp 1 ^ 1075"
    by (intro power_mono) simp_all
  also have "\<dots> = exp (real 1075 * 1)"
    by (rule exp_of_nat_mult [symmetric])
  also have "\<dots> \<le> exp (160001 / 80)"
    by simp
  finally have "(2 :: real) ^ 1075 \<le> exp (160001 / 80)" .
  then have "1 / exp (160001 / 80 :: real) \<le> 1 / 2 ^ 1075"
    by (intro divide_left_mono) simp_all
  then show ?thesis
    by (simp add: exp_minus inverse_eq_divide underflow_threshold_def)
qed

lemma double_exp_deep_underflow: "to_double (exp (- (160001 / 80))) = Finite 0"
proof -
  have "exp (- (160001 / 80) :: real) < overflow_threshold"
    using exp_deep_underflow thresholds by linarith
  moreover have "- overflow_threshold < exp (- (160001 / 80) :: real)"
    using thresholds exp_gt_zero [of "- (160001 / 80) :: real"] by linarith
  ultimately show ?thesis
    using exp_deep_underflow by (simp add: to_double_def)
qed


lemma price_double_underflow:
  "price_double 100 (3 / 100) (4 / 10) (1 / 4) (- 10000) = Finite 0"
proof -
  have root: "(1 / 4 :: real) powr (1 / 2) = 1 / 2"
    by (simp add: powr_half_sqrt sqrt_quarter)
  have square: "to_double ((4 / 10) ^ 2) = Finite (4 / 25)"
    by (subst to_double_moderate) (simp_all add: power_divide)
  show ?thesis
    unfolding price_double_def root square
    by (simp add: double_minus_def to_double_moderate double_exp_deep_underflow to_double_zero)
qed

lemma no_overflow_of_square: "\<not> overflow_threshold \<le> (4 / 10 :: real) ^ 2"
  using thresholds by (simp add: power_divide)

subsection \<open>The closed formula\<close>

text \<open>
  C1. For a float volatility \<^verbatim>\<open>call\<close> returns the formula of the specification
  (\<open>call_returns_spec_price\<close>). For an int volatility it does not: Python 2 divides
  \<^verbatim>\<open>sigma**2/2\<close> between ints by floor division, where \<^verbatim>\<open>float(s)/k\<close> in the same line
  and \<^verbatim>\<open>1.0/2*sigma**2\<close> in \<^verbatim>\<open>bsm\<close> take care to divide floats. At
  \<^verbatim>\<open>call(100, 0, 1, 1, 100)\<close> the code computes \<open>d1 = 0\<close> where the formula has
  \<open>d1 = 1 / 2\<close>, and the price it returns is below the formula's.
\<close>

theorem call_int_volatility_below_formula:
  "\<exists>p. call std_normal_cdf 100 0 (PyInt 1) 1 100 = Returns p
       \<and> p < std_normal_cdf (spec_d1 100 0 1 1 100) * 100
               - std_normal_cdf (spec_d2 100 0 1 1 100) * 100 * exp (- 0 * 1)"
proof -
  have "gauss_series 1 < 2 * gauss_series (1 / 2)"
    using gauss_series_at_one gauss_series_at_half by linarith
  then have "gauss_series 1 / sqrt (2 * pi) < 2 * gauss_series (1 / 2) / sqrt (2 * pi)"
    by (intro divide_strict_right_mono) simp_all
  then have "100 * (gauss_series 1 / sqrt (2 * pi)) < 100 * (2 * gauss_series (1 / 2) / sqrt (2 * pi))"
    by simp
  then show ?thesis
    unfolding spec_price_vol_one call_int_one by blast
qed

text \<open>
  C6. The formula is non-decreasing in spot and in volatility (\<open>call_price_mono_spot\<close>,
  \<open>call_price_mono_vol\<close>), and so is the price that \<^verbatim>\<open>call\<close> returns for float
  volatilities, in exact arithmetic. The code is not: through the floor division of
  \<^verbatim>\<open>sigma**2/2\<close> the price falls when the volatility grows from the float \<open>0.9\<close> to the
  int \<open>1\<close>, at \<^verbatim>\<open>call(100, 0, 0.9, 1, 100)\<close> and \<^verbatim>\<open>call(100, 0, 1, 1, 100)\<close>.
\<close>

theorem call_price_falls_at_int_volatility:
  "\<exists>p q. call std_normal_cdf 100 0 (PyFloat (9 / 10)) 1 100 = Returns p
         \<and> call std_normal_cdf 100 0 (PyInt 1) 1 100 = Returns q
         \<and> q < p"
proof -
  have "gauss_series 1 < 2 * gauss_series (9 / 20)"
    using gauss_series_at_one gauss_series_at_nine_twentieths by linarith
  then have "gauss_series 1 / sqrt (2 * pi) < 2 * gauss_series (9 / 20) / sqrt (2 * pi)"
    by (intro divide_strict_right_mono) simp_all
  then have "100 * (gauss_series 1 / sqrt (2 * pi)) < 100 * (2 * gauss_series (9 / 20) / sqrt (2 * pi))"
    by simp
  then show ?thesis
    unfolding call_float_nine_tenths call_int_one by blast
qed

text \<open>
  C7. With \<open>\<Phi>\<close> the standard normal distribution function,
  \<^verbatim>\<open>call(100, 0.03, 0.4, 0.25, 105)\<close> returns a price within \<open>1 / 1000\<close> of \<open>6.1979\<close>.
\<close>

theorem scenario_price:
  "\<exists>p. call std_normal_cdf 100 (3 / 100) (PyFloat (4 / 10)) (1 / 4) 105 = Returns p
       \<and> \<bar>p - 61979 / 10000\<bar> \<le> 1 / 1000"
proof -
  have "call std_normal_cdf 100 (3 / 100) (PyFloat (4 / 10)) (1 / 4) 105
        = Returns (spec_call_price std_normal_cdf 100 (3 / 100) (4 / 10) (1 / 4) 105)"
    by (rule call_returns_spec_price) simp_all
  moreover have "\<bar>spec_call_price std_normal_cdf 100 (3 / 100) (4 / 10) (1 / 4) 105
                  - 61979 / 10000\<bar> \<le> 1 / 1000"
  proof -
    define X where "X = spec_call_price std_normal_cdf 100 (3 / 100) (4 / 10) (1 / 4) 105"
    have "61969 / 10000 \<le> X \<and> X \<le> 61989 / 10000"
      unfolding X_def by (rule scenario_price_bounds)
    then have "\<bar>X - 61979 / 10000\<bar> \<le> 1 / 1000"
      by linarith
    then show ?thesis
      by (simp only: X_def)
  qed
  ultimately show ?thesis
    by blast
qed

subsection \<open>The simulator\<close>

text \<open>
  C2. For spot, volatility and time to expiry above zero and a sequence of \<open>n\<close> draws,
  \<^verbatim>\<open>bsm\<close> returns \<open>n\<close> prices, the \<open>i\<close>-th of them the price formula of the specification
  at the \<open>i\<close>-th draw; on a single draw it returns the formula at that draw.
\<close>

theorem simulate_elementwise:
  assumes "0 < s_0" and "0 < sigma" and "0 < t"
  shows "(\<exists>prices. bsm_array s_0 r sigma t z = Returns prices
            \<and> length prices = length z
            \<and> (\<forall>i<length z. prices ! i = spec_price s_0 r sigma t (z ! i)))
         \<and> bsm s_0 r sigma t x = Returns (spec_price s_0 r sigma t x)"
  using assms(3) by (simp add: bsm_array_map bsm_scalar)

theorem simulate_elementwise_witness:
  "bsm_array 100 (3 / 100) (4 / 10) (1 / 4) [0, 1, - 1] =
     Returns [spec_price 100 (3 / 100) (4 / 10) (1 / 4) 0,
              spec_price 100 (3 / 100) (4 / 10) (1 / 4) 1,
              spec_price 100 (3 / 100) (4 / 10) (1 / 4) (- 1)]
   \<and> bsm 100 (3 / 100) (4 / 10) (1 / 4) 1 = Returns (spec_price 100 (3 / 100) (4 / 10) (1 / 4) 1)"
proof -
  obtain prices where run: "bsm_array 100 (3 / 100) (4 / 10) (1 / 4) [0, 1, - 1] = Returns prices"
    and len: "length prices = length [0, 1, - 1 :: real]"
    and nth: "\<forall>i<length [0, 1, - 1 :: real].
                prices ! i = spec_price 100 (3 / 100) (4 / 10) (1 / 4) ([0, 1, - 1] ! i)"
    and one: "bsm 100 (3 / 100) (4 / 10) (1 / 4) 1 = Returns (spec_price 100 (3 / 100) (4 / 10) (1 / 4) 1)"
    using simulate_elementwise [of 100 "4 / 10" "1 / 4" "3 / 100" "[0, 1, - 1]" 1] by auto
  have "prices = [prices ! 0, prices ! 1, prices ! 2]"
    using len by (auto simp add: list_eq_iff_nth_eq less_Suc_eq numeral_3_eq_3 numeral_2_eq_2)
  moreover have "prices ! 0 = spec_price 100 (3 / 100) (4 / 10) (1 / 4) 0"
    and "prices ! 1 = spec_price 100 (3 / 100) (4 / 10) (1 / 4) 1"
    and "prices ! 2 = spec_price 100 (3 / 100) (4 / 10) (1 / 4) (- 1)"
    using nth by simp_all
  ultimately show ?thesis
    using run one by simp
qed



text \<open>
  C10, as it is stated, fails: with a spot of \<open>100\<close> the price that
  \<^verbatim>\<open>bsm(100, 0.03, 0.4, 0.25, -10000)\<close> returns is \<^verbatim>\<open>0.0\<close>, not above zero. The exponent is
  \<open>- 2000.0125\<close> and \<^verbatim>\<open>np.exp\<close> underflows.
\<close>

theorem simulated_price_zero_counterexample:
  "bsm_double 100 (3 / 100) (4 / 10) (1 / 4) (- 10000) = Returns (Finite 0)"
  unfolding bsm_double_def price_double_underflow
  using no_overflow_of_square by simp

text \<open>
  C10, amended. With a spot above zero no price that \<^verbatim>\<open>bsm\<close> returns is below zero, for
  a single draw and for each element of an array of draws.
\<close>

theorem simulated_price_not_below_zero:
  assumes "0 < s_0"
  shows "(\<forall>v. bsm_double s_0 r sigma t z = Returns v \<longrightarrow> not_below_zero v)
         \<and> (\<forall>vs. bsm_array_double s_0 r sigma t zs = Returns vs \<longrightarrow> list_all not_below_zero vs)"
  using assms
  by (auto simp add: bsm_double_def bsm_array_double_def list_all_iff
      price_double_not_below_zero split: if_splits)

theorem simulated_price_not_below_zero_witness:
  "bsm_double 100 (3 / 100) (4 / 10) (1 / 4) (- 10000) = Returns (Finite 0)
   \<and> not_below_zero (Finite 0)
   \<and> bsm_array_double 100 (3 / 100) (4 / 10) (1 / 4) [- 10000] = Returns [Finite 0]
   \<and> list_all not_below_zero [Finite 0]"
  using simulated_price_not_below_zero [of 100 "3 / 100" "4 / 10" "1 / 4" "- 10000" "[- 10000]"]
    no_overflow_of_square
  unfolding bsm_double_def bsm_array_double_def list.map price_double_underflow
  by simp

subsection \<open>The Monte Carlo estimate\<close>

text \<open>
  C3. On a non-empty sequence of simulated prices the estimate is the arithmetic mean of
  \<open>max (price - strike) 0\<close> over the sequence, times \<open>exp (- riskFreeRate * timeToExpiry)\<close>.
\<close>

theorem valuer_mean_discounted:
  assumes "ps \<noteq> []"
  shows "presentOptionValue ps k r t =
           Returns ((\<Sum>p\<leftarrow>ps. max (p - k) 0) / real (length ps) * exp (- r * t))"
  using assms
  by (simp add: presentOptionValue_def averageForwardOptionValue_def optionValuesAtExpiry_def
      np_maximum_def array_minus_scalar_def comp_def)

theorem valuer_mean_discounted_witness:
  "presentOptionValue [110, 100, 120] 105 0 1 = Returns (20 / 3)"
  using valuer_mean_discounted [of "[110, 100, 120]" 105 0 1] by simp

text \<open>
  C9. The undiscounted mean pay-off is never below zero: on a non-empty sequence of
  prices the mean is computed, and whenever it is computed it is at least zero.
\<close>

theorem mean_payoff_nonneg:
  "(ps \<noteq> [] \<longrightarrow> (\<exists>a. averageForwardOptionValue (optionValuesAtExpiry ps k) (length ps) = Returns a))
   \<and> (\<forall>a. averageForwardOptionValue (optionValuesAtExpiry ps k) (length ps) = Returns a \<longrightarrow> 0 \<le> a)"
  using sum_list_payoff_nonneg [of ps k]
  by (auto simp add: averageForwardOptionValue_def split: if_splits)

theorem mean_payoff_nonneg_witness:
  "averageForwardOptionValue (optionValuesAtExpiry [110, 100, - 5] 105) (length [110, 100, - 5 :: real])
     = Returns (5 / 3)
   \<and> (0::real) \<le> 5 / 3"
  using mean_payoff_nonneg [of "[110, 100, - 5]" 105]
  by (simp add: averageForwardOptionValue_def optionValuesAtExpiry_def np_maximum_def
      array_minus_scalar_def)

subsection \<open>Errors\<close>

text \<open>
  C5, as the specification states it, fails: on the empty sequence the estimate does not
  fail with \<open>EmptySampleError\<close>.
\<close>

theorem valuer_empty_counterexample:
  "presentOptionValue [] 105 (3 / 100) (1 / 4) \<noteq> Raises EmptySampleError"
  by (simp add: presentOptionValue_def averageForwardOptionValue_def optionValuesAtExpiry_def
      np_maximum_def array_minus_scalar_def)

text \<open>
  C5, amended. On the empty sequence the estimate fails with Python's built-in
  \<open>ZeroDivisionError\<close> and returns no number; on a non-empty sequence it never raises
  this error.
\<close>

theorem valuer_empty_zero_division:
  "presentOptionValue [] k r t = Raises ZeroDivisionError
   \<and> (ps \<noteq> [] \<longrightarrow> presentOptionValue ps k r t \<noteq> Raises ZeroDivisionError)"
  by (simp add: presentOptionValue_def averageForwardOptionValue_def optionValuesAtExpiry_def
      np_maximum_def array_minus_scalar_def)

theorem valuer_empty_zero_division_witness:
  "presentOptionValue [] 105 (3 / 100) (1 / 4) = Raises ZeroDivisionError
   \<and> [110 :: real] \<noteq> []
   \<and> presentOptionValue [110] 105 (3 / 100) (1 / 4) \<noteq> Raises ZeroDivisionError"
  using valuer_empty_zero_division [of 105 "3 / 100" "1 / 4" "[110]"] by simp

text \<open>
  C4, as the specification states it, fails: with a spot of \<open>- 1\<close> the simulator returns
  a number.
\<close>

theorem simulate_negative_spot_counterexample:
  "bsm (- 1) (3 / 100) (4 / 10) (1 / 4) 0 = Returns (- exp (- (1 / 80)))"
  by (simp add: bsm_def power2_eq_square)

text \<open>
  C4, amended. Neither function checks its parameters and neither fails with
  \<open>InvalidParameterError\<close>. With a time to expiry of zero or more the simulator returns
  the price formula whatever the signs of spot and volatility. Both functions fail with
  Python's \<open>ValueError\<close> when the time to expiry is below zero; the closed formula fails
  with \<open>ZeroDivisionError\<close> when volatility or time to expiry is zero, and when the
  strike is zero.
\<close>

theorem no_parameter_validation:
  "bsm s_0 r sigma t z \<noteq> Raises InvalidParameterError
   \<and> bsm_array s_0 r sigma t zs \<noteq> Raises InvalidParameterError
   \<and> call cdf s r vol t k \<noteq> Raises InvalidParameterError
   \<and> (0 \<le> t \<longrightarrow> bsm s_0 r sigma t z = Returns (spec_price s_0 r sigma t z))
   \<and> (t < 0 \<longrightarrow> bsm s_0 r sigma t z = Raises ValueError \<and> call cdf s r vol t k = Raises ValueError)
   \<and> (0 \<le> t \<and> (as_real vol = 0 \<or> t = 0) \<longrightarrow> call cdf s r vol t k = Raises ZeroDivisionError)
   \<and> (0 \<le> t \<and> k = 0 \<longrightarrow> call cdf s r vol t k = Raises ZeroDivisionError)"
  by (simp add: bsm_scalar) (auto simp add: bsm_def bsm_array_def call_def Let_def)

theorem no_parameter_validation_witness:
  "bsm (- 1) (3 / 100) (- (4 / 10)) (1 / 4) 2 = Returns (spec_price (- 1) (3 / 100) (- (4 / 10)) (1 / 4) 2)
   \<and> bsm 100 (3 / 100) (4 / 10) (- 1) 2 = Raises ValueError
   \<and> call std_normal_cdf 100 (3 / 100) (PyFloat (4 / 10)) (- 1) 105 = Raises ValueError
   \<and> call std_normal_cdf 100 (3 / 100) (PyFloat 0) (1 / 4) 105 = Raises ZeroDivisionError
   \<and> call std_normal_cdf 100 (3 / 100) (PyFloat (4 / 10)) 0 105 = Raises ZeroDivisionError
   \<and> call std_normal_cdf 100 (3 / 100) (PyFloat (4 / 10)) (1 / 4) 0 = Raises ZeroDivisionError"
  using no_parameter_validation [of "- 1" "3 / 100" "- (4 / 10)" "1 / 4" 2 "[]" std_normal_cdf 100 "PyFloat (4 / 10)" 105]
    no_parameter_validation [of 100 "3 / 100" "4 / 10" "- 1" 2 "[]" std_normal_cdf 100 "PyFloat (4 / 10)" 105]
    no_parameter_validation [of 100 "3 / 100" "4 / 10" "1 / 4" 2 "[]" std_normal_cdf 100 "PyFloat 0" 105]
    no_parameter_validation [of 100 "3 / 100" "4 / 10" 0 2 "[]" std_normal_cdf 100 "PyFloat (4 / 10)" 105]
    no_parameter_validation [of 100 "3 / 100" "4 / 10" "1 / 4" 2 "[]" std_normal_cdf 100 "PyFloat (4 / 10)" 0]
  by simp

end
